theory Spec2Isabelle
  imports Main "HOL-Library.Sublist"
begin

section \<open>UniversalMCPClient: the connection registry, the dispatcher and the query orchestrator\<close>

text \<open>
  A shallow embedding of the class \<open>UniversalMCPClient\<close> (client.ts) and of the types it
  uses (types.ts). The three private maps of the class are JavaScript \<open>Map\<close>s; they are
  association lists here, in insertion order, because \<open>queryWithLLM\<close> and \<open>disconnect\<close>
  iterate over them. Every method takes the object's state and returns the new one. What
  the class cannot decide itself (whether a transport connects, what a backend server
  answers, what the language model answers) is read from a \<open>world\<close>. Each exchange with
  the outside is appended to the field \<open>trace\<close> of the state, so that "before any I/O" and
  "without closing" are statements about the state.
\<close>

subsection \<open>JavaScript strings\<close>

text \<open>\<open>s.indexOf(c)\<close>: the first position of \<open>c\<close>, or \<open>-1\<close>.\<close>

fun indexOf :: "string \<Rightarrow> char \<Rightarrow> int" where
  "indexOf [] c = -1"
| "indexOf (x # xs) c =
     (if x = c then 0 else (let i = indexOf xs c in if i < 0 then -1 else i + 1))"

text \<open>
  \<open>s.substring(start, end)\<close>: both indices are clamped to \<open>[0, length]\<close> and swapped when
  \<open>start > end\<close>. \<open>s.substring(start)\<close> runs to the end of the string.
\<close>

definition clamp_index :: "string \<Rightarrow> int \<Rightarrow> nat" where
  "clamp_index s i = (if i < 0 then 0 else min (nat i) (length s))"

definition substring :: "string \<Rightarrow> int \<Rightarrow> int \<Rightarrow> string" where
  "substring s start end' =
     (let a = clamp_index s start; b = clamp_index s end';
          lo = min a b; hi = max a b
      in take (hi - lo) (drop lo s))"

definition substring_from :: "string \<Rightarrow> int \<Rightarrow> string" where
  "substring_from s start = drop (clamp_index s start) s"

text \<open>
  \<open>s.trim()\<close> removes white space and line terminators from both ends. Strings are
  sequences of 8-bit code units here; the white space in that range is TAB, LF, VT, FF,
  CR, SPACE and the no-break space.
\<close>

definition is_space :: "char \<Rightarrow> bool" where
  "is_space c = (c = CHR 0x09 \<or> c = CHR 0x0A \<or> c = CHR 0x0B \<or> c = CHR 0x0C \<or>
                 c = CHR 0x0D \<or> c = CHR 0x20 \<or> c = CHR 0xA0)"

definition trim :: "string \<Rightarrow> string" where
  "trim s = rev (dropWhile is_space (rev (dropWhile is_space s)))"

text \<open>A JavaScript value is truthy as a string when it is present and not empty.\<close>

fun truthy :: "string option \<Rightarrow> bool" where
  "truthy None = False"
| "truthy (Some s) = (s \<noteq> [])"

subsection \<open>JavaScript Map\<close>

text \<open>
  \<open>Map.set\<close> replaces the value of a key in place and appends a new key at the end;
  \<open>Map.get\<close> is \<open>map_of\<close>; \<open>Map.delete\<close> removes the key.
\<close>

fun map_set :: "'k \<Rightarrow> 'v \<Rightarrow> ('k \<times> 'v) list \<Rightarrow> ('k \<times> 'v) list" where
  "map_set k v [] = [(k, v)]"
| "map_set k v (p # ps) = (if fst p = k then (k, v) # ps else p # map_set k v ps)"

definition map_get :: "('k \<times> 'v) list \<Rightarrow> 'k \<Rightarrow> 'v option" where
  "map_get m k = map_of m k"

definition map_has :: "('k \<times> 'v) list \<Rightarrow> 'k \<Rightarrow> bool" where
  "map_has m k = (map_of m k \<noteq> None)"

definition map_delete :: "'k \<Rightarrow> ('k \<times> 'v) list \<Rightarrow> ('k \<times> 'v) list" where
  "map_delete k m = filter (\<lambda>p. fst p \<noteq> k) m"

subsection \<open>Errors\<close>

text \<open>
  Everything the code throws is a JavaScript \<open>Error\<close> (or a subclass thrown by the SDK):
  a name and a message. \<open>`${error}`\<close> is \<open>Error.prototype.toString\<close>.
\<close>

datatype error = Err (err_name: string) (err_message: string)

definition Error :: "string \<Rightarrow> error" where
  "Error msg = Err ''Error'' msg"

definition error_toString :: "error \<Rightarrow> string" where
  "error_toString e =
     (if err_name e = [] then err_message e
      else if err_message e = [] then err_name e
      else err_name e @ '': '' @ err_message e)"

subsection \<open>types.ts\<close>

text \<open>
  A JSON document (\<open>any\<close> in the source) is kept as its text, so that
  \<open>JSON.stringify(toolResult, null, 2)\<close> is the document itself.
\<close>

type_synonym json = string

record Tool =
  tool_name :: string
  tool_description :: "string option"
  inputSchema :: "json option"

record Resource =
  uri :: string
  resource_name :: "string option"
  mimeType :: "string option"

record Prompt =
  prompt_name :: string
  prompt_description :: "string option"

record ServerInfo =
  info_name :: string
  tools :: "Tool list"
  resources :: "Resource list"
  prompts :: "Prompt list"

datatype transport_type = stdio | sse

record stdio_config =
  command :: string
  args :: "string list"
  env :: "(string \<times> string) list option"

record sse_config =
  url :: string
  headers :: "(string \<times> string) list option"

record transport_config =
  type_of_transport :: transport_type
  stdio_of :: "stdio_config option"
  sse_of :: "sse_config option"

record MCPServerConfig =
  config_name :: string
  transport :: transport_config
  description :: "string option"

subsection \<open>The outside world\<close>

datatype Transport =
    StdioClientTransport string "string list" "(string \<times> string) list option"
  | SSEClientTransport string

text \<open>
  A backend server, as the SDK's \<open>Client\<close> sees it once a transport is bound: the outcome
  of each request, an error thrown or a result. \<open>None\<close> is success for the requests
  without a result. A server answers equal requests alike; nothing below depends on a
  server that changes its answers. A tool that reports its own failure in a structured
  result (\<open>isError\<close>) has returned a result.
\<close>

record backend =
  connect_r :: "error option"
  listTools_r :: "error + Tool list"
  listResources_r :: "error + Resource list"
  listPrompts_r :: "error + Prompt list"
  callTool_r :: "string \<Rightarrow> json \<Rightarrow> error + json"
  readResource_r :: "string \<Rightarrow> error + json"
  getPrompt_r :: "string \<Rightarrow> json option \<Rightarrow> error + json"
  ping_r :: "error option"
  close_r :: "error option"

text \<open>The SDK's client object: \<open>handle\<close> is the identity of the object.\<close>

record Client =
  client_name :: string
  handle :: nat
  peer :: backend

text \<open>
  The content blocks of a model response and the turns of a conversation. The model is a
  function of the request; the requests of one query all differ (each has more messages
  than the one before), so this fixes nothing about the model.
\<close>

datatype content =
    Text string
  | ToolUse (tool_use_id: string) (tool_use_name: string) (tool_use_input: json)
  | OtherBlock string

datatype message =
    UserText string
  | AssistantBlocks "content list"
  | UserToolResult string json

record tool_definition =
  td_name :: string
  td_description :: string
  td_input_schema :: "json option"

record llm_request =
  req_model :: string
  req_max_tokens :: nat
  req_messages :: "message list"
  req_tools :: "tool_definition list"

record world =
  url_parses :: "string \<Rightarrow> bool"
  reach :: "Transport \<Rightarrow> backend"
  llm :: "llm_request \<Rightarrow> error + content list"

datatype event =
    EvConnect nat Transport
  | EvListTools nat
  | EvListResources nat
  | EvListPrompts nat
  | EvCallTool nat string json
  | EvReadResource nat string
  | EvGetPrompt nat string "json option"
  | EvPing nat
  | EvClose nat
  | EvLLM llm_request

subsection \<open>The state of a UniversalMCPClient\<close>

record Anthropic =
  apiKey :: string

record state =
  clients :: "(string \<times> Client) list"
  transports :: "(string \<times> Transport) list"
  serverInfos :: "(string \<times> ServerInfo) list"
  anthropic :: "Anthropic option"
  anthropicModel :: string
  trace :: "event list"
  next_handle :: nat

definition log :: "event list \<Rightarrow> state \<Rightarrow> state" where
  "log evs st = st\<lparr>trace := trace st @ evs\<rparr>"

text \<open>The constructor: a model backend exists only for a truthy API key.\<close>

definition constructor :: "string option \<Rightarrow> string option \<Rightarrow> state" where
  "constructor anthropicApiKey anthropicModel' =
     \<lparr>clients = [], transports = [], serverInfos = [],
      anthropic = (if truthy anthropicApiKey
                   then Some \<lparr>apiKey = the anthropicApiKey\<rparr> else None),
      anthropicModel = (if truthy anthropicModel' then the anthropicModel'
                        else ''claude-3-5-sonnet-20241022''),
      trace = [], next_handle = 0\<rparr>"

subsection \<open>connectToServer and discoverServerCapabilities\<close>

text \<open>
  The choice of the transport in \<open>connectToServer\<close>. \<open>new URL(...)\<close> throws a
  \<open>TypeError\<close> on a string that is not a URL.
\<close>

definition make_transport :: "world \<Rightarrow> string \<Rightarrow> MCPServerConfig \<Rightarrow> error + Transport" where
  "make_transport w serverName config =
     (let t = transport config in
      if type_of_transport t = stdio \<and> stdio_of t \<noteq> None then
        (let c = the (stdio_of t) in Inr (StdioClientTransport (command c) (args c) (env c)))
      else if type_of_transport t = sse \<and> sse_of t \<noteq> None then
        (let c = the (sse_of t) in
         if url_parses w (url c) then Inr (SSEClientTransport (url c))
         else Inl (Err ''TypeError'' ''Invalid URL''))
      else Inl (Error (''Invalid transport configuration for server '' @ serverName)))"

text \<open>
  \<open>p.catch(() => d)\<close> and the outcome of one promise under \<open>Promise.allSettled\<close>.
\<close>

datatype 'a settled = fulfilled 'a | rejected error

definition catch_default :: "error + 'a \<Rightarrow> 'a \<Rightarrow> error + 'a" where
  "catch_default p d = (case p of Inl e \<Rightarrow> Inr d | Inr v \<Rightarrow> Inr v)"

definition settle :: "error + 'a \<Rightarrow> 'a settled" where
  "settle p = (case p of Inl e \<Rightarrow> rejected e | Inr v \<Rightarrow> fulfilled v)"

definition value_or_empty :: "'a list settled \<Rightarrow> 'a list" where
  "value_or_empty r = (case r of fulfilled v \<Rightarrow> v | rejected e \<Rightarrow> [])"

definition discoverServerCapabilities :: "state \<Rightarrow> string \<Rightarrow> state" where
  "discoverServerCapabilities st serverName =
     (case map_get (clients st) serverName of
        None \<Rightarrow> st
      | Some client \<Rightarrow>
          (let h = handle client;
               st1 = log [EvListTools h, EvListResources h, EvListPrompts h] st;
               toolsResult = settle (catch_default (listTools_r (peer client)) []);
               resourcesResult = settle (catch_default (listResources_r (peer client)) []);
               promptsResult = settle (catch_default (listPrompts_r (peer client)) []);
               serverInfo = \<lparr>info_name = serverName,
                             tools = value_or_empty toolsResult,
                             resources = value_or_empty resourcesResult,
                             prompts = value_or_empty promptsResult\<rparr>
           in st1\<lparr>serverInfos := map_set serverName serverInfo (serverInfos st1)\<rparr>))"

definition connectToServer ::
  "world \<Rightarrow> state \<Rightarrow> string \<Rightarrow> MCPServerConfig \<Rightarrow> (error + unit) \<times> state" where
  "connectToServer w st serverName config =
     (let h = next_handle st;
          st0 = st\<lparr>next_handle := h + 1\<rparr>
      in case make_transport w serverName config of
           Inl e \<Rightarrow> (Inl e, st0)
         | Inr tr \<Rightarrow>
             (let st1 = log [EvConnect h tr] st0 in
              case connect_r (reach w tr) of
                Some e \<Rightarrow> (Inl e, st1)
              | None \<Rightarrow>
                  (let client = \<lparr>client_name = ''universal-client-'' @ serverName,
                                 handle = h, peer = reach w tr\<rparr>;
                       st2 = st1\<lparr>clients := map_set serverName client (clients st1),
                                 transports := map_set serverName tr (transports st1)\<rparr>
                   in (Inr (), discoverServerCapabilities st2 serverName))))"

subsection \<open>The dispatcher\<close>

definition not_connected :: "string \<Rightarrow> error" where
  "not_connected serverName = Error (''Server '' @ serverName @ '' not connected'')"

definition callTool :: "state \<Rightarrow> string \<Rightarrow> string \<Rightarrow> json \<Rightarrow> (error + json) \<times> state" where
  "callTool st serverName toolName args' =
     (case map_get (clients st) serverName of
        None \<Rightarrow> (Inl (not_connected serverName), st)
      | Some client \<Rightarrow>
          (callTool_r (peer client) toolName args',
           log [EvCallTool (handle client) toolName args'] st))"

definition readResource :: "state \<Rightarrow> string \<Rightarrow> string \<Rightarrow> (error + json) \<times> state" where
  "readResource st serverName uri' =
     (case map_get (clients st) serverName of
        None \<Rightarrow> (Inl (not_connected serverName), st)
      | Some client \<Rightarrow>
          (readResource_r (peer client) uri',
           log [EvReadResource (handle client) uri'] st))"

definition getPrompt ::
  "state \<Rightarrow> string \<Rightarrow> string \<Rightarrow> json option \<Rightarrow> (error + json) \<times> state" where
  "getPrompt st serverName name args' =
     (case map_get (clients st) serverName of
        None \<Rightarrow> (Inl (not_connected serverName), st)
      | Some client \<Rightarrow>
          (getPrompt_r (peer client) name args',
           log [EvGetPrompt (handle client) name args'] st))"

text \<open>
  \<open>ping\<close> catches whatever the request throws: it resolves to a boolean on every path.
\<close>

definition ping :: "state \<Rightarrow> string \<Rightarrow> (error + bool) \<times> state" where
  "ping st serverName =
     (case map_get (clients st) serverName of
        None \<Rightarrow> (Inr False, st)
      | Some client \<Rightarrow>
          (case ping_r (peer client) of
             None \<Rightarrow> (Inr True, log [EvPing (handle client)] st)
           | Some e \<Rightarrow> (Inr False, log [EvPing (handle client)] st)))"

definition getServerInfo :: "state \<Rightarrow> string \<Rightarrow> ServerInfo option" where
  "getServerInfo st serverName = map_get (serverInfos st) serverName"

definition getAllServerInfos :: "state \<Rightarrow> (string \<times> ServerInfo) list" where
  "getAllServerInfos st = serverInfos st"

definition getConnectedServers :: "state \<Rightarrow> string list" where
  "getConnectedServers st = map fst (clients st)"

definition isConnected :: "state \<Rightarrow> string \<Rightarrow> bool" where
  "isConnected st serverName = map_has (clients st) serverName"

subsection \<open>disconnect\<close>

text \<open>
  The loop of the branch "disconnect all": it closes the clients in the order of the map and
  stops at the first \<open>close\<close> that throws.
\<close>

fun close_all :: "(string \<times> Client) list \<Rightarrow> state \<Rightarrow> (error + unit) \<times> state" where
  "close_all [] st = (Inr (), st)"
| "close_all (p # ps) st =
     (let st1 = log [EvClose (handle (snd p))] st in
      case close_r (peer (snd p)) of
        Some e \<Rightarrow> (Inl e, st1)
      | None \<Rightarrow> close_all ps st1)"

definition disconnect :: "state \<Rightarrow> string option \<Rightarrow> (error + unit) \<times> state" where
  "disconnect st serverName =
     (if truthy serverName then
        (let n = the serverName in
         case map_get (clients st) n of
           None \<Rightarrow> (Inr (), st)
         | Some client \<Rightarrow>
             (let st1 = log [EvClose (handle client)] st in
              case close_r (peer client) of
                Some e \<Rightarrow> (Inl e, st1)
              | None \<Rightarrow>
                  (Inr (), st1\<lparr>clients := map_delete n (clients st1),
                                transports := map_delete n (transports st1),
                                serverInfos := map_delete n (serverInfos st1)\<rparr>)))
      else
        (case close_all (clients st) st of
           (Inl e, st1) \<Rightarrow> (Inl e, st1)
         | (Inr u, st1) \<Rightarrow>
             (Inr (), st1\<lparr>clients := [], transports := [], serverInfos := []\<rparr>)))"

subsection \<open>queryWithLLM\<close>

text \<open>
  The flattened tool list: for every server of \<open>serverInfos\<close>, in the order of the map
  (skipping the servers other than a truthy \<open>preferredServer\<close>), every tool under the name
  \<open>`${serverName}_${tool.name}`\<close>.
\<close>

definition tool_entry :: "string \<Rightarrow> Tool \<Rightarrow> tool_definition" where
  "tool_entry serverName tool =
     \<lparr>td_name = serverName @ ''_'' @ tool_name tool,
      td_description =
        (if truthy (tool_description tool) then the (tool_description tool)
         else ''Tool '' @ tool_name tool @ '' from '' @ serverName),
      td_input_schema = inputSchema tool\<rparr>"

fun collect_tools :: "(string \<times> ServerInfo) list \<Rightarrow> string option \<Rightarrow> tool_definition list" where
  "collect_tools [] preferredServer = []"
| "collect_tools (p # rest) preferredServer =
     (if truthy preferredServer \<and> fst p \<noteq> the preferredServer
      then collect_tools rest preferredServer
      else map (tool_entry (fst p)) (tools (snd p)) @ collect_tools rest preferredServer)"

text \<open>"Parse server_tool format": the split of a tool name chosen by the model.\<close>

definition parse_qualified :: "string \<Rightarrow> string \<times> string" where
  "parse_qualified name =
     (let underscoreIndex = indexOf name CHR ''_''
      in (substring name 0 underscoreIndex, substring_from name (underscoreIndex + 1)))"

text \<open>
  The local variables of the loop over \<open>response.content\<close>. The array
  \<open>followUpMessages\<close> holds the user's query and then, for every invocation that
  succeeded, an assistant turn and a tool_result turn. The content of each of these
  assistant turns is the one array object \<open>assistantContent\<close>, which the loop goes on
  extending: a request sent later shows, in all of them, the blocks pushed so far. So
  \<open>followUps\<close> keeps the tool_result turns (request id and result), and the messages of a
  request are put together when it is sent.
\<close>

record loop_state =
  result :: string
  followUps :: "(string \<times> json) list"
  assistantContent :: "content list"

definition followUpMessages :: "string \<Rightarrow> loop_state \<Rightarrow> message list" where
  "followUpMessages query ls =
     UserText query #
     concat (map (\<lambda>p. [AssistantBlocks (assistantContent ls), UserToolResult (fst p) (snd p)])
                 (followUps ls))"

definition newline :: string where
  "newline = [CHR 0x0A]"

definition executed_line :: "string \<Rightarrow> string" where
  "executed_line name = newline @ ''['' @ name @ '' executed]'' @ newline"

definition failure_note :: "string \<Rightarrow> error \<Rightarrow> string" where
  "failure_note name e = ''['' @ name @ '' failed: '' @ error_toString e @ '']''"

definition failed_line :: "string \<Rightarrow> error \<Rightarrow> string" where
  "failed_line name e = newline @ failure_note name e @ newline"

text \<open>The text blocks of a follow-up response; its other blocks are skipped.\<close>

fun followUp_text :: "content list \<Rightarrow> string" where
  "followUp_text [] = []"
| "followUp_text (Text t # cs) = t @ newline @ followUp_text cs"
| "followUp_text (c # cs) = followUp_text cs"

definition make_request :: "state \<Rightarrow> message list \<Rightarrow> tool_definition list \<Rightarrow> llm_request" where
  "make_request st msgs allTools =
     \<lparr>req_model = anthropicModel st, req_max_tokens = 2000,
      req_messages = msgs, req_tools = allTools\<rparr>"

text \<open>One iteration of the loop over the blocks of the first response.\<close>

fun process_content ::
  "world \<Rightarrow> tool_definition list \<Rightarrow> string \<Rightarrow> content \<Rightarrow> loop_state \<times> state \<Rightarrow>
   loop_state \<times> state" where
  "process_content w allTools query (Text t) (ls, st) =
     (ls\<lparr>result := result ls @ t @ newline,
         assistantContent := assistantContent ls @ [Text t]\<rparr>, st)"
| "process_content w allTools query (ToolUse i name input) (ls, st) =
     (let ls1 = ls\<lparr>assistantContent := assistantContent ls @ [ToolUse i name input]\<rparr>;
          serverName = fst (parse_qualified name);
          toolName = snd (parse_qualified name)
      in case callTool st serverName toolName input of
           (Inl e, st1) \<Rightarrow> (ls1\<lparr>result := result ls1 @ failed_line name e\<rparr>, st1)
         | (Inr toolResult, st1) \<Rightarrow>
             (let ls2 = ls1\<lparr>result := result ls1 @ executed_line name,
                            followUps := followUps ls1 @ [(i, toolResult)]\<rparr>;
                  req = make_request st1 (followUpMessages query ls2) allTools;
                  st2 = log [EvLLM req] st1
              in case llm w req of
                   Inl e \<Rightarrow> (ls2\<lparr>result := result ls2 @ failed_line name e\<rparr>, st2)
                 | Inr followUpResponse \<Rightarrow>
                     (ls2\<lparr>result := result ls2 @ followUp_text followUpResponse\<rparr>, st2)))"
| "process_content w allTools query (OtherBlock b) (ls, st) = (ls, st)"

fun process_response ::
  "world \<Rightarrow> tool_definition list \<Rightarrow> string \<Rightarrow> content list \<Rightarrow> loop_state \<times> state \<Rightarrow>
   loop_state \<times> state" where
  "process_response w allTools query [] acc = acc"
| "process_response w allTools query (c # cs) acc =
     process_response w allTools query cs (process_content w allTools query c acc)"

definition queryWithLLM ::
  "world \<Rightarrow> state \<Rightarrow> string \<Rightarrow> string option \<Rightarrow> (error + string) \<times> state" where
  "queryWithLLM w st query preferredServer =
     (case anthropic st of
        None \<Rightarrow> (Inl (Error ''Anthropic API key not configured''), st)
      | Some a \<Rightarrow>
          (let allTools = collect_tools (serverInfos st) preferredServer;
               req = make_request st [UserText query] allTools;
               st1 = log [EvLLM req] st
           in case llm w req of
                Inl e \<Rightarrow> (Inl e, st1)
              | Inr response \<Rightarrow>
                  (let fin = process_response w allTools query response
                               (\<lparr>result = [], followUps = [], assistantContent = []\<rparr>, st1)
                   in (Inr (trim (result (fst fin))), snd fin))))"

subsection \<open>Reading the trace\<close>

text \<open>
  The events a call appended to the trace, the model requests among some events, and the
  tool calls that reached a backend server (handle of the client, tool name, arguments).
\<close>

definition new_events :: "state \<Rightarrow> state \<Rightarrow> event list" where
  "new_events st st' = drop (length (trace st)) (trace st')"

fun llm_requests :: "event list \<Rightarrow> llm_request list" where
  "llm_requests [] = []"
| "llm_requests (EvLLM r # evs) = r # llm_requests evs"
| "llm_requests (ev # evs) = llm_requests evs"

fun tool_calls :: "event list \<Rightarrow> (nat \<times> string \<times> json) list" where
  "tool_calls [] = []"
| "tool_calls (EvCallTool h n a # evs) = (h, n, a) # tool_calls evs"
| "tool_calls (ev # evs) = tool_calls evs"

fun is_tool_use :: "content \<Rightarrow> bool" where
  "is_tool_use (ToolUse i n a) = True"
| "is_tool_use c = False"

text \<open>
  What a block of the first response asks of the registry: the tool call it leads to (none
  for a block that is not a \<open>tool_use\<close>, and none when the server part of the name is not
  connected), and whether that call returns a result.
\<close>

fun requested_call :: "state \<Rightarrow> content \<Rightarrow> (nat \<times> string \<times> json) list" where
  "requested_call st (ToolUse i name input) =
     (case map_get (clients st) (fst (parse_qualified name)) of
        None \<Rightarrow> []
      | Some c \<Rightarrow> [(handle c, snd (parse_qualified name), input)])"
| "requested_call st c = []"

fun call_succeeds :: "state \<Rightarrow> content \<Rightarrow> bool" where
  "call_succeeds st (ToolUse i name input) =
     (case map_get (clients st) (fst (parse_qualified name)) of
        None \<Rightarrow> False
      | Some c \<Rightarrow>
          (case callTool_r (peer c) (snd (parse_qualified name)) input of
             Inl e \<Rightarrow> False
           | Inr r \<Rightarrow> True))"
| "call_succeeds st c = False"

subsection \<open>A sample deployment\<close>

text \<open>
  A backend server that offers the tool \<open>search\<close>, answers \<open>listResources\<close> with
  "method not found" and has no prompts; a stdio descriptor; and worlds in which every
  transport reaches that server. The worlds differ in what the language model answers.
\<close>

definition search_tool :: Tool where
  "search_tool = \<lparr>tool_name = ''search'', tool_description = None, inputSchema = None\<rparr>"

definition method_not_found :: error where
  "method_not_found = Err ''McpError'' ''MCP error -32601: Method not found''"

definition search_server :: backend where
  "search_server =
     \<lparr>connect_r = None,
      listTools_r = Inr [search_tool],
      listResources_r = Inl method_not_found,
      listPrompts_r = Inr [],
      callTool_r = (\<lambda>n a. if n = ''search'' then Inr ''[]'' else Inl method_not_found),
      readResource_r = (\<lambda>u. Inl method_not_found),
      getPrompt_r = (\<lambda>n a. Inl method_not_found),
      ping_r = None,
      close_r = None\<rparr>"

definition node_config :: MCPServerConfig where
  "node_config =
     \<lparr>config_name = ''Search Server'',
      transport = \<lparr>type_of_transport = stdio,
                   stdio_of = Some \<lparr>command = ''node'', args = [''server.js''], env = None\<rparr>,
                   sse_of = None\<rparr>,
      description = None\<rparr>"

definition node_transport :: Transport where
  "node_transport = StdioClientTransport ''node'' [''server.js''] None"

text \<open>
  The model asks for \<open>first\<close> on the user's query and answers every later request with
  \<open>later\<close>.
\<close>

definition scripted_world :: "content list \<Rightarrow> content list \<Rightarrow> world" where
  "scripted_world first later =
     \<lparr>url_parses = (\<lambda>u. True),
      reach = (\<lambda>t. search_server),
      llm = (\<lambda>req. if length (req_messages req) = 1 then Inr first else Inr later)\<rparr>"

definition quiet_world :: world where
  "quiet_world = scripted_world [] []"

text \<open>The state after connecting the given identifiers, one after the other.\<close>

fun connect_each :: "world \<Rightarrow> string list \<Rightarrow> state \<Rightarrow> state" where
  "connect_each w [] st = st"
| "connect_each w (n # ns) st = connect_each w ns (snd (connectToServer w st n node_config))"

text \<open>Two servers connected to a client that was constructed with an API key.\<close>

definition two_servers :: "string \<Rightarrow> string \<Rightarrow> state" where
  "two_servers a b = connect_each quiet_world [a, b] (constructor (Some ''sk'') None)"

text \<open>
  Three conversations. In the first the model asks for a tool that server \<open>a\<close> does not
  have, between two texts. In the second it asks for \<open>a_search\<close> and, in its answer to
  the tool result, for \<open>b_search\<close>. In the third it asks for the tool \<open>search\<close> of the
  server \<open>a_b\<close>.
\<close>

definition failing_world :: world where
  "failing_world =
     scripted_world [Text ''Looking.'', ToolUse ''t1'' ''a_lookup'' ''{}'', Text ''Done.''] []"

definition chained_world :: world where
  "chained_world =
     scripted_world [ToolUse ''t1'' ''a_search'' ''{}'']
                    [Text ''More.'', ToolUse ''t2'' ''b_search'' ''[2]'']"

definition misrouted_world :: world where
  "misrouted_world = scripted_world [ToolUse ''t1'' ''a_b_search'' ''{}''] []"

text \<open>
  A longer conversation: the first response holds a text, a call of \<open>a_search\<close>, a call
  addressed to a server \<open>c\<close> that is not connected, a call of \<open>b_search\<close> and a last
  text; every follow-up response holds a text and one more call of \<open>a_search\<close>.
\<close>

definition busy_world :: world where
  "busy_world =
     scripted_world
       [Text ''Hi.'', ToolUse ''t1'' ''a_search'' ''{}'', ToolUse ''t2'' ''c_search'' ''{}'',
        ToolUse ''t3'' ''b_search'' ''[2]'', Text ''Bye.'']
       [Text ''More.'', ToolUse ''t4'' ''a_search'' ''[3]'']"

section \<open>Properties\<close>

subsection \<open>Maps and the registry\<close>

lemma map_get_map_set_same: "map_get (map_set k v m) k = Some v"
  by (induction m) (auto simp: map_get_def)

lemma map_get_map_set_other: "k' \<noteq> k \<Longrightarrow> map_get (map_set k v m) k' = map_get m k'"
  by (induction m) (auto simp: map_get_def)

lemma map_get_map_delete_same: "map_get (map_delete k m) k = None"
  by (induction m) (auto simp: map_get_def map_delete_def)

lemma map_delete_absent: "map_get m k = None \<Longrightarrow> map_delete k m = m"
  by (induction m) (auto simp: map_get_def map_delete_def split: if_splits)

lemma clients_discover: "clients (discoverServerCapabilities st n) = clients st"
  by (simp add: discoverServerCapabilities_def log_def Let_def split: option.splits)

lemma anthropic_discover: "anthropic (discoverServerCapabilities st n) = anthropic st"
  by (simp add: discoverServerCapabilities_def log_def Let_def split: option.splits)

lemma connectToServer_success:
  assumes "make_transport w serverName config = Inr tr" and "connect_r (reach w tr) = None"
  shows "connectToServer w st serverName config =
    (Inr (),
     discoverServerCapabilities
       ((log [EvConnect (next_handle st) tr] (st\<lparr>next_handle := next_handle st + 1\<rparr>))
          \<lparr>clients := map_set serverName
              \<lparr>client_name = ''universal-client-'' @ serverName, handle = next_handle st,
               peer = reach w tr\<rparr> (clients st),
           transports := map_set serverName tr (transports st)\<rparr>) serverName)"
  using assms by (simp add: connectToServer_def Let_def log_def)

lemma connectToServer_cases:
  "connectToServer w st serverName config = (Inr (), st') \<Longrightarrow>
   \<exists>tr. make_transport w serverName config = Inr tr \<and> connect_r (reach w tr) = None"
  by (auto simp: connectToServer_def Let_def split: sum.splits option.splits)

lemmas sample_defs = constructor_def node_config_def node_transport_def search_server_def
  search_tool_def scripted_world_def quiet_world_def method_not_found_def make_transport_def

lemma make_transport_node: "make_transport (scripted_world a b) n node_config = Inr node_transport"
  by (simp add: sample_defs)

lemma reach_scripted: "reach (scripted_world a b) t = search_server"
  by (simp add: scripted_world_def)


lemma map_fst_map_set_present: "map_get m k \<noteq> None \<Longrightarrow> map fst (map_set k v m) = map fst m"
  by (induction m) (auto simp: map_get_def split: if_splits)

lemma discover_connected:
  assumes "map_get (clients st) n = Some c"
  shows "discoverServerCapabilities st n =
    st\<lparr>trace := trace st @ [EvListTools (handle c), EvListResources (handle c), EvListPrompts (handle c)],
       serverInfos := map_set n
         \<lparr>info_name = n,
          tools = (case listTools_r (peer c) of Inl e \<Rightarrow> [] | Inr ts \<Rightarrow> ts),
          resources = (case listResources_r (peer c) of Inl e \<Rightarrow> [] | Inr rs \<Rightarrow> rs),
          prompts = (case listPrompts_r (peer c) of Inl e \<Rightarrow> [] | Inr ps \<Rightarrow> ps)\<rparr>
         (serverInfos st)\<rparr>"
  using assms
  by (simp add: discoverServerCapabilities_def Let_def log_def settle_def catch_default_def
      value_or_empty_def split: sum.splits)

lemma connectToServer_ok:
  assumes "make_transport w serverName config = Inr tr" and "connect_r (reach w tr) = None"
  shows "connectToServer w st serverName config =
    (Inr (),
     st\<lparr>next_handle := next_handle st + 1,
        trace := trace st @ [EvConnect (next_handle st) tr, EvListTools (next_handle st),
                             EvListResources (next_handle st), EvListPrompts (next_handle st)],
        clients := map_set serverName
              \<lparr>client_name = ''universal-client-'' @ serverName, handle = next_handle st,
               peer = reach w tr\<rparr> (clients st),
        transports := map_set serverName tr (transports st),
        serverInfos := map_set serverName
         \<lparr>info_name = serverName,
          tools = (case listTools_r (reach w tr) of Inl e \<Rightarrow> [] | Inr ts \<Rightarrow> ts),
          resources = (case listResources_r (reach w tr) of Inl e \<Rightarrow> [] | Inr rs \<Rightarrow> rs),
          prompts = (case listPrompts_r (reach w tr) of Inl e \<Rightarrow> [] | Inr ps \<Rightarrow> ps)\<rparr>
         (serverInfos st)\<rparr>)"
  unfolding connectToServer_success [OF assms]
  by (subst discover_connected [where c = "\<lparr>client_name = ''universal-client-'' @ serverName,
        handle = next_handle st, peer = reach w tr\<rparr>"])
     (simp_all add: map_get_map_set_same log_def)

lemma connectToServer_failed:
  assumes "fst (connectToServer w st serverName config) = Inl e"
  shows "clients (snd (connectToServer w st serverName config)) = clients st \<and>
         transports (snd (connectToServer w st serverName config)) = transports st \<and>
         serverInfos (snd (connectToServer w st serverName config)) = serverInfos st"
  using assms
  by (auto simp: connectToServer_def Let_def log_def split: sum.splits option.splits)

text \<open>
  Two facts about every state a client can reach from its constructor by connecting and
  disconnecting: the keys of the snapshot map are distinct, and the model backend is the
  one the constructor made, which exists exactly for a truthy API key.
\<close>

lemma map_fst_map_set:
  "map fst (map_set k v m) = (if k \<in> set (map fst m) then map fst m else map fst m @ [k])"
  by (induction m) auto

lemma distinct_map_set: "distinct (map fst m) \<Longrightarrow> distinct (map fst (map_set k v m))"
  by (simp add: map_fst_map_set)

lemma distinct_map_delete: "distinct (map fst m) \<Longrightarrow> distinct (map fst (map_delete k m))"
  by (simp add: map_delete_def distinct_map_filter)

lemma close_all_maps:
  "serverInfos (snd (close_all cs st)) = serverInfos st \<and>
   anthropic (snd (close_all cs st)) = anthropic st"
  by (induction cs arbitrary: st) (simp_all add: log_def Let_def split: option.splits)

lemma constructor_invariant:
  "distinct (map fst (serverInfos (constructor k m))) \<and>
   (anthropic (constructor k m) = None \<longleftrightarrow> \<not> truthy k)"
  by (simp add: constructor_def)

lemma connectToServer_invariant:
  "distinct (map fst (serverInfos st)) \<Longrightarrow>
   distinct (map fst (serverInfos (snd (connectToServer w st n config))))"
  by (simp add: connectToServer_def discoverServerCapabilities_def Let_def log_def
      distinct_map_set split: sum.splits option.splits)

lemma connectToServer_anthropic:
  "anthropic (snd (connectToServer w st n config)) = anthropic st"
  by (simp add: connectToServer_def anthropic_discover Let_def log_def
      split: sum.splits option.splits)

lemma disconnect_invariant:
  "distinct (map fst (serverInfos st)) \<Longrightarrow>
   distinct (map fst (serverInfos (snd (disconnect st n))))"
  using close_all_maps [of "clients st" st]
  by (auto simp: disconnect_def Let_def log_def distinct_map_delete
      split: option.splits prod.splits sum.splits)

lemma disconnect_anthropic:
  "anthropic (snd (disconnect st n)) = anthropic st"
  using close_all_maps [of "clients st" st]
  by (auto simp: disconnect_def Let_def log_def split: option.splits prod.splits sum.splits)

text \<open>
  C9: whenever \<open>connectToServer\<close> returns successfully, the snapshot map holds, under the
  identifier, the snapshot that the discovery of this connect made from the three list
  calls, and \<open>getServerInfo\<close> returns that entry: it is a function of the snapshot map
  alone, with the same value in every state that has this map, whatever its trace.
  \<open>isConnected\<close> is true, in every state with these clients. Neither takes a world or
  returns a state: the I/O of the connect (the connect of the transport and the three
  list calls) is all the trace holds, and the reads add nothing to it.
\<close>

theorem connect_then_cached:
  assumes "connectToServer w st serverName config = (Inr (), st')"
  shows "\<exists>tr. make_transport w serverName config = Inr tr \<and>
     map_get (serverInfos st') serverName =
       Some \<lparr>info_name = serverName,
             tools = (case listTools_r (reach w tr) of Inl e \<Rightarrow> [] | Inr ts \<Rightarrow> ts),
             resources = (case listResources_r (reach w tr) of Inl e \<Rightarrow> [] | Inr rs \<Rightarrow> rs),
             prompts = (case listPrompts_r (reach w tr) of Inl e \<Rightarrow> [] | Inr ps \<Rightarrow> ps)\<rparr> \<and>
     (\<forall>s. serverInfos s = serverInfos st' \<longrightarrow>
        getServerInfo s serverName = map_get (serverInfos st') serverName) \<and>
     (\<forall>s. clients s = clients st' \<longrightarrow> isConnected s serverName) \<and>
     getServerInfo st' serverName = map_get (serverInfos st') serverName \<and>
     isConnected st' serverName \<and>
     trace st' = trace st @ [EvConnect (next_handle st) tr, EvListTools (next_handle st),
                             EvListResources (next_handle st), EvListPrompts (next_handle st)]"
proof -
  from assms obtain tr where tr: "make_transport w serverName config = Inr tr"
      "connect_r (reach w tr) = None"
    using connectToServer_cases by blast
  from connectToServer_ok [OF tr, of st] assms have st':
    "st' = st\<lparr>next_handle := next_handle st + 1,
        trace := trace st @ [EvConnect (next_handle st) tr, EvListTools (next_handle st),
                             EvListResources (next_handle st), EvListPrompts (next_handle st)],
        clients := map_set serverName
              \<lparr>client_name = ''universal-client-'' @ serverName, handle = next_handle st,
               peer = reach w tr\<rparr> (clients st),
        transports := map_set serverName tr (transports st),
        serverInfos := map_set serverName
         \<lparr>info_name = serverName,
          tools = (case listTools_r (reach w tr) of Inl e \<Rightarrow> [] | Inr ts \<Rightarrow> ts),
          resources = (case listResources_r (reach w tr) of Inl e \<Rightarrow> [] | Inr rs \<Rightarrow> rs),
          prompts = (case listPrompts_r (reach w tr) of Inl e \<Rightarrow> [] | Inr ps \<Rightarrow> ps)\<rparr>
         (serverInfos st)\<rparr>"
    by simp
  have present: "map_of (clients st') serverName \<noteq> None"
    using map_get_map_set_same [of serverName _ "clients st"]
    by (simp add: st' map_get_def)
  show ?thesis
    using present
    by (intro exI [of _ tr])
       (simp add: tr st' map_get_map_set_same getServerInfo_def isConnected_def map_has_def)
qed

lemma connect_quiet_a:
  "connectToServer quiet_world (constructor None None) ''a'' node_config =
   (Inr (), connect_each quiet_world [''a''] (constructor None None))"
  by (simp add: connectToServer_ok [where tr = node_transport] quiet_world_def
      make_transport_node reach_scripted search_server_def)

theorem connect_then_cached_witness:
  "connectToServer quiet_world (constructor None None) ''a'' node_config =
     (Inr (), connect_each quiet_world [''a''] (constructor None None)) \<and>
   getServerInfo (connect_each quiet_world [''a''] (constructor None None)) ''a'' =
     Some \<lparr>info_name = ''a'', tools = [search_tool], resources = [], prompts = []\<rparr> \<and>
   isConnected (connect_each quiet_world [''a''] (constructor None None)) ''a'' \<and>
   trace (connect_each quiet_world [''a''] (constructor None None)) =
     [EvConnect 0 node_transport, EvListTools 0, EvListResources 0, EvListPrompts 0]"
proof -
  have t: "make_transport quiet_world ''a'' node_config = Inr node_transport"
    by (simp add: quiet_world_def make_transport_node)
  from connect_then_cached [OF connect_quiet_a] t connect_quiet_a
  show ?thesis
    by (auto simp: quiet_world_def reach_scripted search_server_def constructor_def)
qed

text \<open>
  C4: when the descriptor is well-formed and the transport connects, \<open>connectToServer\<close>
  succeeds whatever the three list calls answer, and the snapshot holds, for each
  capability by itself, the list the server returned, or the empty list when that call
  failed. The witness is a server with a tool and without resources.
\<close>

theorem discovery_fault_tolerant:
  assumes "make_transport w serverName config = Inr tr" and "connect_r (reach w tr) = None"
  shows "fst (connectToServer w st serverName config) = Inr () \<and>
         getServerInfo (snd (connectToServer w st serverName config)) serverName =
           Some \<lparr>info_name = serverName,
                 tools = (case listTools_r (reach w tr) of Inl e \<Rightarrow> [] | Inr ts \<Rightarrow> ts),
                 resources = (case listResources_r (reach w tr) of Inl e \<Rightarrow> [] | Inr rs \<Rightarrow> rs),
                 prompts = (case listPrompts_r (reach w tr) of Inl e \<Rightarrow> [] | Inr ps \<Rightarrow> ps)\<rparr>"
  by (simp add: connectToServer_ok [OF assms] getServerInfo_def map_get_map_set_same)

theorem discovery_fault_tolerant_witness:
  "listTools_r search_server = Inr [search_tool] \<and>
   listResources_r search_server = Inl method_not_found \<and>
   fst (connectToServer quiet_world (constructor None None) ''a'' node_config) = Inr () \<and>
   getServerInfo (snd (connectToServer quiet_world (constructor None None) ''a'' node_config)) ''a'' =
     Some \<lparr>info_name = ''a'', tools = [search_tool], resources = [], prompts = []\<rparr>"
proof -
  have t: "make_transport quiet_world ''a'' node_config = Inr node_transport"
    by (simp add: quiet_world_def make_transport_node)
  have c: "connect_r (reach quiet_world node_transport) = None"
    by (simp add: quiet_world_def reach_scripted search_server_def)
  show ?thesis
    using discovery_fault_tolerant [OF t c, of "constructor None None"]
    by (simp add: quiet_world_def reach_scripted search_server_def)
qed

subsection \<open>The query without a model backend\<close>

text \<open>
  C6: without a model backend (\<open>anthropic\<close> is undefined, as after a construction without
  an API key), \<open>queryWithLLM\<close> throws \<open>Error("Anthropic API key not configured")\<close>, the
  configuration error of this code, and leaves the state as it was: the trace has no new
  event, so no model request was sent and no tool was called. It returns no answer, empty
  or not.
\<close>

theorem query_without_backend_fails:
  "anthropic st = None \<Longrightarrow>
   queryWithLLM w st query preferredServer =
     (Inl (Error ''Anthropic API key not configured''), st)"
  by (simp add: queryWithLLM_def)

theorem query_without_backend_fails_witness:
  "anthropic (constructor None None) = None \<and>
   queryWithLLM quiet_world (constructor None None) ''hello'' None =
     (Inl (Error ''Anthropic API key not configured''), constructor None None)"
  using query_without_backend_fails [of "constructor None None" quiet_world "''hello''" None]
  by (simp add: constructor_def)

subsection \<open>Reconnecting, and identifiers that contain the separator\<close>

lemma connect_each_quiet_step:
  "snd (connectToServer quiet_world st n node_config) =
     st\<lparr>next_handle := next_handle st + 1,
        trace := trace st @ [EvConnect (next_handle st) node_transport, EvListTools (next_handle st),
                             EvListResources (next_handle st), EvListPrompts (next_handle st)],
        clients := map_set n
              \<lparr>client_name = ''universal-client-'' @ n, handle = next_handle st,
               peer = search_server\<rparr> (clients st),
        transports := map_set n node_transport (transports st),
        serverInfos := map_set n
         \<lparr>info_name = n, tools = [search_tool], resources = [], prompts = []\<rparr>
         (serverInfos st)\<rparr>"
  by (simp add: connectToServer_ok [where tr = node_transport] quiet_world_def
      make_transport_node reach_scripted search_server_def)

lemma fst_connect_quiet: "fst (connectToServer quiet_world st n node_config) = Inr ()"
  by (simp add: connectToServer_ok [where tr = node_transport] quiet_world_def
      make_transport_node reach_scripted search_server_def)

lemma connected_a: "isConnected (connect_each quiet_world [''a''] (constructor None None)) ''a''"
  by (simp add: connect_each_quiet_step isConnected_def map_has_def constructor_def)

lemma reconnect_a:
  "connectToServer quiet_world (connect_each quiet_world [''a''] (constructor None None)) ''a''
     node_config =
   (Inr (), connect_each quiet_world [''a'', ''a''] (constructor None None))"
  by (simp add: prod_eq_iff fst_connect_quiet)

text \<open>
  C8, as amended: a successful \<open>connectToServer\<close> for an identifier that is already
  connected puts the new client and the new transport in the place of the old ones (the
  list of connected identifiers stays as it was), and the only I/O it performs is the
  connect of the new transport and the three list calls: nothing is closed.
\<close>

theorem reconnect_replaces_without_close:
  assumes "isConnected st serverName"
    and "connectToServer w st serverName config = (Inr (), st')"
  shows "\<exists>tr. make_transport w serverName config = Inr tr \<and>
     map_get (clients st') serverName =
       Some \<lparr>client_name = ''universal-client-'' @ serverName, handle = next_handle st,
             peer = reach w tr\<rparr> \<and>
     map_get (transports st') serverName = Some tr \<and>
     getConnectedServers st' = getConnectedServers st \<and>
     trace st' = trace st @ [EvConnect (next_handle st) tr, EvListTools (next_handle st),
                             EvListResources (next_handle st), EvListPrompts (next_handle st)]"
proof -
  from assms(2) obtain tr where tr: "make_transport w serverName config = Inr tr"
      "connect_r (reach w tr) = None"
    using connectToServer_cases by blast
  from assms(1) have present: "map_get (clients st) serverName \<noteq> None"
    by (simp add: isConnected_def map_has_def map_get_def)
  from connectToServer_ok [OF tr, of st] assms(2) have st':
    "st' = st\<lparr>next_handle := next_handle st + 1,
        trace := trace st @ [EvConnect (next_handle st) tr, EvListTools (next_handle st),
                             EvListResources (next_handle st), EvListPrompts (next_handle st)],
        clients := map_set serverName
              \<lparr>client_name = ''universal-client-'' @ serverName, handle = next_handle st,
               peer = reach w tr\<rparr> (clients st),
        transports := map_set serverName tr (transports st),
        serverInfos := map_set serverName
         \<lparr>info_name = serverName,
          tools = (case listTools_r (reach w tr) of Inl e \<Rightarrow> [] | Inr ts \<Rightarrow> ts),
          resources = (case listResources_r (reach w tr) of Inl e \<Rightarrow> [] | Inr rs \<Rightarrow> rs),
          prompts = (case listPrompts_r (reach w tr) of Inl e \<Rightarrow> [] | Inr ps \<Rightarrow> ps)\<rparr>
         (serverInfos st)\<rparr>"
    by simp
  show ?thesis
    by (rule exI [of _ tr])
       (simp add: tr st' map_get_map_set_same getConnectedServers_def
          map_fst_map_set_present [OF present])
qed

text \<open>
  Connecting \<open>a\<close> twice: the second client has taken the place of the first, and the
  trace holds two connects and no close.
\<close>

theorem reconnect_replaces_without_close_witness:
  "isConnected (connect_each quiet_world [''a''] (constructor None None)) ''a'' \<and>
   map_get (clients (connect_each quiet_world [''a'', ''a''] (constructor None None))) ''a'' =
     Some \<lparr>client_name = ''universal-client-a'', handle = 1, peer = search_server\<rparr> \<and>
   getConnectedServers (connect_each quiet_world [''a'', ''a''] (constructor None None)) = [''a''] \<and>
   trace (connect_each quiet_world [''a'', ''a''] (constructor None None)) =
     [EvConnect 0 node_transport, EvListTools 0, EvListResources 0, EvListPrompts 0,
      EvConnect 1 node_transport, EvListTools 1, EvListResources 1, EvListPrompts 1]"
  using reconnect_replaces_without_close [OF connected_a reconnect_a] connected_a
  by (simp add: connect_each_quiet_step constructor_def getConnectedServers_def map_get_def)

text \<open>
  Against C8 as stated: the client with handle 0 is registered under \<open>a\<close>; after the
  second connect the registry holds the client with handle 1, and handle 0 was never
  closed.
\<close>

theorem reconnect_leaves_old_handle_open:
  "map_get (clients (connect_each quiet_world [''a''] (constructor None None))) ''a'' =
     Some \<lparr>client_name = ''universal-client-a'', handle = 0, peer = search_server\<rparr> \<and>
   fst (connectToServer quiet_world (connect_each quiet_world [''a''] (constructor None None))
          ''a'' node_config) = Inr () \<and>
   map_get (clients (snd (connectToServer quiet_world
       (connect_each quiet_world [''a''] (constructor None None)) ''a'' node_config))) ''a'' =
     Some \<lparr>client_name = ''universal-client-a'', handle = 1, peer = search_server\<rparr> \<and>
   EvClose 0 \<notin> set (trace (snd (connectToServer quiet_world
       (connect_each quiet_world [''a''] (constructor None None)) ''a'' node_config)))"
  by (simp add: connect_each_quiet_step fst_connect_quiet constructor_def map_get_def)

lemma connect_success_isConnected:
  assumes "fst (connectToServer w st serverName config) = Inr ()"
  shows "isConnected (snd (connectToServer w st serverName config)) serverName"
proof -
  from assms have "connectToServer w st serverName config =
      (Inr (), snd (connectToServer w st serverName config))"
    by (simp add: prod_eq_iff)
  then obtain tr where tr: "make_transport w serverName config = Inr tr"
      "connect_r (reach w tr) = None"
    using connectToServer_cases by blast
  show ?thesis
    by (simp add: connectToServer_ok [OF tr] isConnected_def map_has_def
        map_get_map_set_same [unfolded map_get_def])
qed

text \<open>
  C1, as amended: \<open>connectToServer\<close> does not inspect the identifier. For an identifier
  that contains the separator \<open>_\<close>, it succeeds exactly when the descriptor yields a
  transport and that transport connects, and then the identifier is connected; when it
  does not succeed, the three maps are unchanged.
\<close>

theorem separator_not_rejected:
  assumes "CHR ''_'' \<in> set serverName"
  shows "(fst (connectToServer w st serverName config) = Inr () \<longleftrightarrow>
           (\<exists>tr. make_transport w serverName config = Inr tr \<and> connect_r (reach w tr) = None)) \<and>
         (fst (connectToServer w st serverName config) = Inr () \<longrightarrow>
            isConnected (snd (connectToServer w st serverName config)) serverName) \<and>
         (fst (connectToServer w st serverName config) \<noteq> Inr () \<longrightarrow>
            clients (snd (connectToServer w st serverName config)) = clients st \<and>
            transports (snd (connectToServer w st serverName config)) = transports st \<and>
            serverInfos (snd (connectToServer w st serverName config)) = serverInfos st)"
proof (intro conjI impI)
  show "fst (connectToServer w st serverName config) = Inr () \<longleftrightarrow>
           (\<exists>tr. make_transport w serverName config = Inr tr \<and> connect_r (reach w tr) = None)"
    by (auto simp: connectToServer_def Let_def split: sum.splits option.splits)
next
  assume "fst (connectToServer w st serverName config) = Inr ()"
  then show "isConnected (snd (connectToServer w st serverName config)) serverName"
    by (rule connect_success_isConnected)
next
  assume "fst (connectToServer w st serverName config) \<noteq> Inr ()"
  then obtain e where "fst (connectToServer w st serverName config) = Inl e"
    by (cases "fst (connectToServer w st serverName config)") auto
  from connectToServer_failed [OF this]
  show "clients (snd (connectToServer w st serverName config)) = clients st"
    and "transports (snd (connectToServer w st serverName config)) = transports st"
    and "serverInfos (snd (connectToServer w st serverName config)) = serverInfos st"
    by simp_all
qed

text \<open>
  The identifier \<open>a_b\<close> with a well-formed descriptor and a server that
  answers.
\<close>

theorem separator_not_rejected_witness:
  "CHR ''_'' \<in> set ''a_b'' \<and>
   make_transport quiet_world ''a_b'' node_config = Inr node_transport \<and>
   connect_r (reach quiet_world node_transport) = None \<and>
   fst (connectToServer quiet_world (constructor None None) ''a_b'' node_config) = Inr () \<and>
   isConnected (snd (connectToServer quiet_world (constructor None None) ''a_b'' node_config)) ''a_b''"
proof -
  have h: "CHR ''_'' \<in> set ''a_b''" by simp
  have t: "make_transport quiet_world ''a_b'' node_config = Inr node_transport"
    by (simp add: quiet_world_def make_transport_node)
  have c: "connect_r (reach quiet_world node_transport) = None"
    by (simp add: quiet_world_def reach_scripted search_server_def)
  from separator_not_rejected [OF h, of quiet_world "constructor None None" node_config] t c h
  show ?thesis by blast
qed

text \<open>
  Against C1 as stated: \<open>a_b\<close> contains the separator, the connect succeeds and a
  client is registered under it.
\<close>

theorem separator_identifier_registered:
  "CHR ''_'' \<in> set ''a_b'' \<and>
   fst (connectToServer quiet_world (constructor None None) ''a_b'' node_config) = Inr () \<and>
   map_get (clients (snd (connectToServer quiet_world (constructor None None) ''a_b'' node_config)))
     ''a_b'' = Some \<lparr>client_name = ''universal-client-a_b'', handle = 0, peer = search_server\<rparr>"
  by (simp add: connect_each_quiet_step fst_connect_quiet constructor_def map_get_def)

subsection \<open>Dispatch after disconnect\<close>

lemma close_all_nil_state:
  "close_all [] st = (Inr (), st)"
  by simp

lemma disconnect_unknown:
  "other \<noteq> [] \<Longrightarrow> \<not> isConnected st other \<Longrightarrow> disconnect st (Some other) = (Inr (), st)"
  by (simp add: disconnect_def isConnected_def map_has_def map_get_def)

lemma disconnect_success_removed:
  assumes "disconnect st (Some serverName) = (Inr (), st')"
  shows "map_get (clients st') serverName = None"
proof (cases "serverName = []")
  case True
  with assms show ?thesis
    by (auto simp: disconnect_def map_get_def split: prod.splits sum.splits)
next
  case False
  with assms show ?thesis
    by (auto simp: disconnect_def Let_def map_get_map_delete_same
        split: option.splits)
qed

lemma disconnect_again:
  assumes "disconnect st (Some serverName) = (Inr (), st')"
  shows "disconnect st' (Some serverName) = (Inr (), st')"
proof (cases "serverName = []")
  case True
  with assms show ?thesis
    by (auto simp: disconnect_def split: prod.splits sum.splits)
next
  case False
  with disconnect_success_removed [OF assms] show ?thesis
    by (simp add: disconnect_def)
qed

text \<open>
  The test \<open>if (serverName)\<close> of \<open>disconnect\<close> takes the empty identifier for an
  omitted one: it disconnects every server.
\<close>

lemma disconnect_empty_identifier:
  "disconnect st (Some []) = disconnect st None"
  by (simp add: disconnect_def)

lemma quiet_state_a:
  "connect_each quiet_world [''a''] (constructor None None) =
     \<lparr>clients = [(''a'', \<lparr>client_name = ''universal-client-a'', handle = 0, peer = search_server\<rparr>)],
      transports = [(''a'', node_transport)],
      serverInfos = [(''a'', \<lparr>info_name = ''a'', tools = [search_tool], resources = [], prompts = []\<rparr>)],
      anthropic = None, anthropicModel = ''claude-3-5-sonnet-20241022'',
      trace = [EvConnect 0 node_transport, EvListTools 0, EvListResources 0, EvListPrompts 0],
      next_handle = 1\<rparr>"
  by (simp add: connect_each_quiet_step constructor_def)

lemma disconnect_a:
  "disconnect (connect_each quiet_world [''a''] (constructor None None)) (Some ''a'') =
     (Inr (),
      \<lparr>clients = [], transports = [], serverInfos = [],
       anthropic = None, anthropicModel = ''claude-3-5-sonnet-20241022'',
       trace = [EvConnect 0 node_transport, EvListTools 0, EvListResources 0, EvListPrompts 0,
                EvClose 0],
       next_handle = 1\<rparr>)"
  unfolding quiet_state_a
  by (simp add: disconnect_def map_get_def log_def search_server_def map_delete_def Let_def)

lemma disconnect_a_ok:
  "disconnect (connect_each quiet_world [''a''] (constructor None None)) (Some ''a'') =
     (Inr (), snd (disconnect (connect_each quiet_world [''a''] (constructor None None))
                     (Some ''a'')))"
  unfolding disconnect_a by simp

text \<open>
  C7, as amended: after a \<open>disconnect\<close> of an identifier that returned, a tool call, a
  resource read and a prompt fetch addressed to it throw
  \<open>Error("Server ... not connected")\<close> and \<open>ping\<close> resolves to \<open>false\<close>, each leaving
  the state and its trace unchanged (no channel I/O); a second \<open>disconnect\<close> of the
  identifier changes nothing; and so does the \<open>disconnect\<close> of any non-empty identifier
  that is not connected.
\<close>

theorem after_disconnect_not_connected:
  assumes "disconnect st (Some serverName) = (Inr (), st')"
  shows "callTool st' serverName toolName a = (Inl (not_connected serverName), st') \<and>
         readResource st' serverName u = (Inl (not_connected serverName), st') \<and>
         getPrompt st' serverName p pa = (Inl (not_connected serverName), st') \<and>
         ping st' serverName = (Inr False, st') \<and>
         disconnect st' (Some serverName) = (Inr (), st') \<and>
         (\<forall>other. other \<noteq> [] \<and> \<not> isConnected st other \<longrightarrow>
            disconnect st (Some other) = (Inr (), st))"
  using disconnect_success_removed [OF assms] disconnect_again [OF assms]
  by (simp add: callTool_def readResource_def getPrompt_def ping_def disconnect_unknown)

text \<open>
  Connect \<open>a\<close>, disconnect it, then call a tool and ping: the trace ends with the close.
  Disconnecting the unknown \<open>b\<close> changes nothing.
\<close>

theorem after_disconnect_not_connected_witness:
  "fst (disconnect (connect_each quiet_world [''a''] (constructor None None)) (Some ''a'')) =
     Inr () \<and>
   fst (callTool (snd (disconnect (connect_each quiet_world [''a''] (constructor None None))
                         (Some ''a''))) ''a'' ''search'' ''{}'') =
     Inl (Error ''Server a not connected'') \<and>
   fst (ping (snd (disconnect (connect_each quiet_world [''a''] (constructor None None))
                     (Some ''a''))) ''a'') = Inr False \<and>
   trace (snd (callTool (snd (disconnect (connect_each quiet_world [''a''] (constructor None None))
                         (Some ''a''))) ''a'' ''search'' ''{}'')) =
     [EvConnect 0 node_transport, EvListTools 0, EvListResources 0, EvListPrompts 0, EvClose 0] \<and>
   disconnect (connect_each quiet_world [''a''] (constructor None None)) (Some ''b'') =
     (Inr (), connect_each quiet_world [''a''] (constructor None None))"
proof -
  have b: "''b'' \<noteq> [] \<and>
      \<not> isConnected (connect_each quiet_world [''a''] (constructor None None)) ''b''"
    unfolding quiet_state_a by (simp add: isConnected_def map_has_def)
  from after_disconnect_not_connected [OF disconnect_a_ok, of "''search''" "''{}''" "''file:///x''"
      "''greet''" None] b
  show ?thesis
    unfolding disconnect_a by (simp add: not_connected_def)
qed

text \<open>
  Against C7 as stated: after the disconnect of \<open>a\<close>, \<open>ping\<close> of \<open>a\<close> does not
  fail, it resolves to \<open>false\<close>.
\<close>

theorem ping_after_disconnect_is_false:
  "fst (disconnect (connect_each quiet_world [''a''] (constructor None None)) (Some ''a'')) = Inr () \<and>
   fst (ping (snd (disconnect (connect_each quiet_world [''a''] (constructor None None))
                     (Some ''a''))) ''a'') = Inr False"
  unfolding disconnect_a by (simp add: ping_def map_get_def)

subsection \<open>The trace of a query and the preferred server\<close>

lemma llm_requests_append: "llm_requests (xs @ ys) = llm_requests xs @ llm_requests ys"
  by (induction xs rule: llm_requests.induct) simp_all

lemma tool_calls_append: "tool_calls (xs @ ys) = tool_calls xs @ tool_calls ys"
  by (induction xs rule: tool_calls.induct) simp_all

lemma new_events_append: "trace st' = trace st @ evs \<Longrightarrow> new_events st st' = evs"
  by (simp add: new_events_def)

lemma callTool_frame:
  "clients (snd (callTool st n t a)) = clients st \<and>
   anthropicModel (snd (callTool st n t a)) = anthropicModel st \<and>
   trace (snd (callTool st n t a)) =
     trace st @ (case map_get (clients st) n of None \<Rightarrow> [] | Some c \<Rightarrow> [EvCallTool (handle c) t a])"
  by (simp add: callTool_def log_def split: option.splits)

lemma process_content_clients:
  "clients (snd (process_content w T q c acc)) = clients (snd acc)"
  by (cases c; cases acc)
     (auto simp: Let_def log_def callTool_def split: prod.splits sum.splits option.splits)

lemma process_response_clients:
  "clients (snd (process_response w T q cs acc)) = clients (snd acc)"
  by (induction cs arbitrary: acc) (simp_all add: process_content_clients)

text \<open>
  What one iteration of the loop, the whole loop and the whole query append to the trace:
  every model request offers the same tool list, at most one tool call is made for each
  \<open>tool_use\<close> block of the first response, and a follow-up request is sent only after a
  tool call.
\<close>

lemma process_content_trace:
  "\<exists>evs. trace (snd (process_content w T q c acc)) = trace (snd acc) @ evs \<and>
         (\<forall>r \<in> set (llm_requests evs). req_tools r = T) \<and>
         length (tool_calls evs) \<le> (if is_tool_use c then 1 else 0) \<and>
         length (llm_requests evs) \<le> length (tool_calls evs)"
proof (cases acc)
  case (Pair ls st)
  show ?thesis
  proof (cases c)
    case (Text t)
    with Pair show ?thesis by simp
  next
    case (OtherBlock b)
    with Pair show ?thesis by simp
  next
    case (ToolUse i name input)
    show ?thesis
    proof (cases "map_get (clients st) (fst (parse_qualified name))")
      case None
      with Pair ToolUse show ?thesis
        by (simp add: callTool_def)
    next
      case (Some client)
      with Pair ToolUse show ?thesis
        by (cases "callTool_r (peer client) (snd (parse_qualified name)) input")
           (auto simp: callTool_def log_def Let_def make_request_def split: sum.splits)
    qed
  qed
qed

lemma process_response_trace:
  "\<exists>evs. trace (snd (process_response w T q cs acc)) = trace (snd acc) @ evs \<and>
         (\<forall>r \<in> set (llm_requests evs). req_tools r = T) \<and>
         length (tool_calls evs) \<le> length (filter is_tool_use cs) \<and>
         length (llm_requests evs) \<le> length (tool_calls evs)"
proof (induction cs arbitrary: acc)
  case Nil
  then show ?case by simp
next
  case (Cons c cs)
  obtain e1 where e1: "trace (snd (process_content w T q c acc)) = trace (snd acc) @ e1"
      "\<forall>r \<in> set (llm_requests e1). req_tools r = T"
      "length (tool_calls e1) \<le> (if is_tool_use c then 1 else 0)"
      "length (llm_requests e1) \<le> length (tool_calls e1)"
    using process_content_trace [of w T q c acc] by blast
  obtain e2 where e2:
      "trace (snd (process_response w T q cs (process_content w T q c acc))) =
         trace (snd (process_content w T q c acc)) @ e2"
      "\<forall>r \<in> set (llm_requests e2). req_tools r = T"
      "length (tool_calls e2) \<le> length (filter is_tool_use cs)"
      "length (llm_requests e2) \<le> length (tool_calls e2)"
    using Cons.IH [of "process_content w T q c acc"] by blast
  show ?case
  proof (intro exI [of _ "e1 @ e2"] conjI)
    show "trace (snd (process_response w T q (c # cs) acc)) = trace (snd acc) @ e1 @ e2"
      using e1(1) e2(1) by simp
    show "\<forall>r \<in> set (llm_requests (e1 @ e2)). req_tools r = T"
      using e1(2) e2(2) by (auto simp: llm_requests_append)
    show "length (tool_calls (e1 @ e2)) \<le> length (filter is_tool_use (c # cs))"
      using e1(3) e2(3) by (simp add: tool_calls_append split: if_splits)
    show "length (llm_requests (e1 @ e2)) \<le> length (tool_calls (e1 @ e2))"
      using e1(4) e2(4) by (simp add: tool_calls_append llm_requests_append)
  qed
qed

lemma queryWithLLM_trace:
  assumes "anthropic st = Some a"
  shows "\<exists>evs. new_events st (snd (queryWithLLM w st query p)) =
           EvLLM (make_request st [UserText query] (collect_tools (serverInfos st) p)) # evs \<and>
         (\<forall>r \<in> set (llm_requests evs). req_tools r = collect_tools (serverInfos st) p) \<and>
         length (tool_calls evs) \<le>
           (case llm w (make_request st [UserText query] (collect_tools (serverInfos st) p)) of
              Inl e \<Rightarrow> 0 | Inr response \<Rightarrow> length (filter is_tool_use response)) \<and>
         length (llm_requests evs) \<le> length (tool_calls evs)"
proof (cases "llm w (make_request st [UserText query] (collect_tools (serverInfos st) p))")
  case (Inl e)
  with assms show ?thesis
    by (simp add: queryWithLLM_def Let_def log_def new_events_def)
next
  case (Inr response)
  let ?T = "collect_tools (serverInfos st) p"
  let ?req = "make_request st [UserText query] ?T"
  let ?acc = "(\<lparr>result = [], followUps = [], assistantContent = []\<rparr>, log [EvLLM ?req] st)"
  obtain evs where evs:
      "trace (snd (process_response w ?T query response ?acc)) = trace (snd ?acc) @ evs"
      "\<forall>r \<in> set (llm_requests evs). req_tools r = ?T"
      "length (tool_calls evs) \<le> length (filter is_tool_use response)"
      "length (llm_requests evs) \<le> length (tool_calls evs)"
    using process_response_trace [of w ?T query response ?acc] by blast
  have "trace (snd (queryWithLLM w st query p)) = trace st @ EvLLM ?req # evs"
    using assms Inr evs(1) by (simp add: queryWithLLM_def Let_def log_def)
  then have "new_events st (snd (queryWithLLM w st query p)) = EvLLM ?req # evs"
    by (rule new_events_append)
  with evs(2-4) Inr show ?thesis by simp
qed

lemma collect_tools_absent:
  "p \<noteq> [] \<Longrightarrow> p \<notin> fst ` set m \<Longrightarrow> collect_tools m (Some p) = []"
  by (induction m) auto

lemma collect_tools_preferred:
  "p \<noteq> [] \<Longrightarrow> distinct (map fst m) \<Longrightarrow>
   collect_tools m (Some p) =
     (case map_get m p of None \<Rightarrow> [] | Some info \<Rightarrow> map (tool_entry p) (tools info))"
proof (induction m)
  case Nil
  then show ?case by (simp add: map_get_def)
next
  case (Cons x m)
  show ?case
  proof (cases "fst x = p")
    case True
    with Cons.prems have "p \<notin> fst ` set m" by auto
    with Cons.prems(1) have "collect_tools m (Some p) = []" by (rule collect_tools_absent)
    with True Cons.prems(1) show ?thesis by (cases x) (simp add: map_get_def)
  next
    case False
    with Cons show ?thesis by (cases x) (simp add: map_get_def)
  qed
qed

lemma connect_scripted_step:
  "connectToServer (scripted_world f l) st n node_config =
    (Inr (),
     st\<lparr>next_handle := next_handle st + 1,
        trace := trace st @ [EvConnect (next_handle st) node_transport, EvListTools (next_handle st),
                             EvListResources (next_handle st), EvListPrompts (next_handle st)],
        clients := map_set n
              \<lparr>client_name = ''universal-client-'' @ n, handle = next_handle st,
               peer = search_server\<rparr> (clients st),
        transports := map_set n node_transport (transports st),
        serverInfos := map_set n
         \<lparr>info_name = n, tools = [search_tool], resources = [], prompts = []\<rparr>
         (serverInfos st)\<rparr>)"
  by (simp add: connectToServer_ok [where tr = node_transport]
      make_transport_node reach_scripted search_server_def)

lemma two_servers_state:
  "a \<noteq> b \<Longrightarrow> two_servers a b =
     \<lparr>clients = [(a, \<lparr>client_name = ''universal-client-'' @ a, handle = 0, peer = search_server\<rparr>),
                 (b, \<lparr>client_name = ''universal-client-'' @ b, handle = 1, peer = search_server\<rparr>)],
      transports = [(a, node_transport), (b, node_transport)],
      serverInfos = [(a, \<lparr>info_name = a, tools = [search_tool], resources = [], prompts = []\<rparr>),
                     (b, \<lparr>info_name = b, tools = [search_tool], resources = [], prompts = []\<rparr>)],
      anthropic = Some \<lparr>apiKey = ''sk''\<rparr>, anthropicModel = ''claude-3-5-sonnet-20241022'',
      trace = [EvConnect 0 node_transport, EvListTools 0, EvListResources 0, EvListPrompts 0,
               EvConnect 1 node_transport, EvListTools 1, EvListResources 1, EvListPrompts 1],
      next_handle = 2\<rparr>"
  by (simp add: two_servers_def quiet_world_def connect_scripted_step constructor_def)

lemma trim_Nil: "trim [] = []"
  by (simp add: trim_def)

lemma collect_tools_empty_preference: "collect_tools m (Some []) = collect_tools m None"
  by (induction m) simp_all

lemma collect_tools_no_preference:
  "collect_tools m None = concat (map (\<lambda>p. map (tool_entry (fst p)) (tools (snd p))) m)"
  by (induction m) simp_all

lemma query_empty_preference:
  "queryWithLLM w st query (Some []) = queryWithLLM w st query None"
  unfolding queryWithLLM_def collect_tools_empty_preference by (rule refl)

text \<open>
  C10, as amended: a query with a preferred-server argument sends at least one model
  request. When the argument is a non-empty string (and the keys of the snapshot map are
  distinct, as in a \<open>Map\<close>), every model request of the query, the first one and the
  follow-ups, offers exactly the tools of that server, qualified with its name; it offers
  no tool when no server of that name is registered. When the argument is the empty
  string, the query is the query without a preference: every request offers the tools of
  all servers, in the order of the map.
\<close>

theorem preferred_server_only:
  assumes "anthropic st = Some a"
  shows "llm_requests (new_events st (snd (queryWithLLM w st query (Some preferredServer)))) \<noteq> [] \<and>
         (preferredServer \<noteq> [] \<and> distinct (map fst (serverInfos st)) \<longrightarrow>
          (\<forall>r \<in> set (llm_requests
                      (new_events st (snd (queryWithLLM w st query (Some preferredServer))))).
            req_tools r =
              (case getServerInfo st preferredServer of
                 None \<Rightarrow> []
               | Some info \<Rightarrow> map (tool_entry preferredServer) (tools info)))) \<and>
         (preferredServer = [] \<longrightarrow>
          queryWithLLM w st query (Some preferredServer) = queryWithLLM w st query None \<and>
          (\<forall>r \<in> set (llm_requests
                      (new_events st (snd (queryWithLLM w st query (Some preferredServer))))).
            req_tools r =
              concat (map (\<lambda>p. map (tool_entry (fst p)) (tools (snd p))) (serverInfos st))))"
proof -
  let ?T = "collect_tools (serverInfos st) (Some preferredServer)"
  obtain evs where evs:
      "new_events st (snd (queryWithLLM w st query (Some preferredServer))) =
         EvLLM (make_request st [UserText query] ?T) # evs"
      "\<forall>r \<in> set (llm_requests evs). req_tools r = ?T"
    using queryWithLLM_trace [OF assms(1), of w query "Some preferredServer"] by blast
  have all: "\<forall>r \<in> set (llm_requests
      (new_events st (snd (queryWithLLM w st query (Some preferredServer))))). req_tools r = ?T"
    unfolding evs(1) using evs(2) by (simp add: make_request_def)
  have nonempty: "llm_requests (new_events st (snd (queryWithLLM w st query (Some preferredServer))))
      \<noteq> []"
    unfolding evs(1) by simp
  have one: "?T = (case getServerInfo st preferredServer of
                 None \<Rightarrow> []
               | Some info \<Rightarrow> map (tool_entry preferredServer) (tools info))"
    if "preferredServer \<noteq> []" "distinct (map fst (serverInfos st))"
    using collect_tools_preferred [OF that] by (simp add: getServerInfo_def)
  have every: "?T = concat (map (\<lambda>p. map (tool_entry (fst p)) (tools (snd p))) (serverInfos st))"
    if "preferredServer = []"
    using that by (simp add: collect_tools_empty_preference collect_tools_no_preference)
  show ?thesis
  proof (intro conjI impI)
    show "llm_requests (new_events st (snd (queryWithLLM w st query (Some preferredServer)))) \<noteq> []"
      by (rule nonempty)
  next
    assume "preferredServer \<noteq> [] \<and> distinct (map fst (serverInfos st))"
    then have "?T = (case getServerInfo st preferredServer of
                 None \<Rightarrow> []
               | Some info \<Rightarrow> map (tool_entry preferredServer) (tools info))"
      using one by blast
    with all show "\<forall>r \<in> set (llm_requests
                      (new_events st (snd (queryWithLLM w st query (Some preferredServer))))).
            req_tools r =
              (case getServerInfo st preferredServer of
                 None \<Rightarrow> []
               | Some info \<Rightarrow> map (tool_entry preferredServer) (tools info))"
      by simp
  next
    assume e: "preferredServer = []"
    then show "queryWithLLM w st query (Some preferredServer) = queryWithLLM w st query None"
      by (simp add: query_empty_preference)
    from every [OF e] all show "\<forall>r \<in> set (llm_requests
                      (new_events st (snd (queryWithLLM w st query (Some preferredServer))))).
            req_tools r =
              concat (map (\<lambda>p. map (tool_entry (fst p)) (tools (snd p))) (serverInfos st))"
      by simp
  qed
qed

text \<open>
  Servers \<open>a\<close> and \<open>b\<close> with the tool \<open>search\<close> each; with the preference \<open>b\<close> the
  one request of the query offers \<open>b_search\<close> alone. With the empty preference the query is the
  one without a preference, and its request offers the tool of \<open>a\<close> and the tool of
  \<open>b\<close>.
\<close>

theorem preferred_server_only_witness:
  "anthropic (two_servers ''a'' ''b'') = Some \<lparr>apiKey = ''sk''\<rparr> \<and>
   distinct (map fst (serverInfos (two_servers ''a'' ''b''))) \<and>
   map (\<lambda>r. map td_name (req_tools r))
     (llm_requests (new_events (two_servers ''a'' ''b'')
        (snd (queryWithLLM quiet_world (two_servers ''a'' ''b'') ''q'' (Some ''b''))))) =
     [[''b_search'']] \<and>
   queryWithLLM quiet_world (two_servers ''a'' ''b'') ''q'' (Some []) =
     queryWithLLM quiet_world (two_servers ''a'' ''b'') ''q'' None \<and>
   map req_tools
     (llm_requests (new_events (two_servers ''a'' ''b'')
        (snd (queryWithLLM quiet_world (two_servers ''a'' ''b'') ''q'' (Some []))))) =
     [[tool_entry ''a'' search_tool, tool_entry ''b'' search_tool]]"
proof -
  have a: "anthropic (two_servers ''a'' ''b'') = Some \<lparr>apiKey = ''sk''\<rparr>"
    by (simp add: two_servers_state)
  have d: "distinct (map fst (serverInfos (two_servers ''a'' ''b'')))"
    by (simp add: two_servers_state)
  have q: "llm_requests (new_events (two_servers ''a'' ''b'')
        (snd (queryWithLLM quiet_world (two_servers ''a'' ''b'') ''q'' p))) =
      [make_request (two_servers ''a'' ''b'') [UserText ''q'']
         (collect_tools (serverInfos (two_servers ''a'' ''b'')) p)]" for p
    by (simp add: queryWithLLM_def a Let_def quiet_world_def scripted_world_def make_request_def
        log_def new_events_def)
  have g: "getServerInfo (two_servers ''a'' ''b'') ''b'' =
      Some \<lparr>info_name = ''b'', tools = [search_tool], resources = [], prompts = []\<rparr>"
    by (simp add: two_servers_state getServerInfo_def map_get_def)
  have i: "serverInfos (two_servers ''a'' ''b'') =
      [(''a'', \<lparr>info_name = ''a'', tools = [search_tool], resources = [], prompts = []\<rparr>),
       (''b'', \<lparr>info_name = ''b'', tools = [search_tool], resources = [], prompts = []\<rparr>)]"
    by (simp add: two_servers_state)
  from preferred_server_only [OF a, of quiet_world "''q''" "''b''"] d
  have b: "map (\<lambda>r. map td_name (req_tools r))
     (llm_requests (new_events (two_servers ''a'' ''b'')
        (snd (queryWithLLM quiet_world (two_servers ''a'' ''b'') ''q'' (Some ''b''))))) =
     [[''b_search'']]"
    unfolding q g by (simp add: tool_entry_def search_tool_def)
  from preferred_server_only [OF a, of quiet_world "''q''" "[]"]
  have e: "queryWithLLM quiet_world (two_servers ''a'' ''b'') ''q'' (Some []) =
     queryWithLLM quiet_world (two_servers ''a'' ''b'') ''q'' None \<and>
   map req_tools
     (llm_requests (new_events (two_servers ''a'' ''b'')
        (snd (queryWithLLM quiet_world (two_servers ''a'' ''b'') ''q'' (Some []))))) =
     [[tool_entry ''a'' search_tool, tool_entry ''b'' search_tool]]"
    unfolding q i by simp
  from a d b e show ?thesis by blast
qed

text \<open>
  Against C10 as stated: the empty string is a preferred-server argument, no server has
  that name, and the request offers the tools of both servers.
\<close>

theorem empty_preference_offers_all_tools:
  "getServerInfo (two_servers ''a'' ''b'') [] = None \<and>
   map (\<lambda>r. map td_name (req_tools r))
     (llm_requests (new_events (two_servers ''a'' ''b'')
        (snd (queryWithLLM quiet_world (two_servers ''a'' ''b'') ''q'' (Some []))))) =
     [[''a_search'', ''b_search'']]"
proof -
  have a: "anthropic (two_servers ''a'' ''b'') = Some \<lparr>apiKey = ''sk''\<rparr>"
    by (simp add: two_servers_state)
  have q: "llm_requests (new_events (two_servers ''a'' ''b'')
        (snd (queryWithLLM quiet_world (two_servers ''a'' ''b'') ''q'' (Some [])))) =
      [make_request (two_servers ''a'' ''b'') [UserText ''q'']
         (collect_tools (serverInfos (two_servers ''a'' ''b'')) (Some []))]"
    by (simp add: queryWithLLM_def a Let_def quiet_world_def scripted_world_def make_request_def
        log_def new_events_def)
  show ?thesis
    unfolding q
    by (simp add: two_servers_state getServerInfo_def map_get_def make_request_def
        tool_entry_def search_tool_def)
qed

subsection \<open>A tool call that fails\<close>

text \<open>
  \<open>trim\<close> removes white space from the two ends only: a piece of the string that begins
  and ends with other characters is still there afterwards.
\<close>

lemma dropWhile_stops:
  "\<not> P x \<Longrightarrow> \<exists>a'. dropWhile P (a @ x # r) = a' @ x # r"
  by (induction a) auto

lemma trim_keeps_core:
  assumes "u \<noteq> []" and "\<not> is_space (hd u)" and "\<not> is_space (last u)"
  shows "sublist u (trim (a @ u @ b))"
proof -
  from assms(1) obtain x u' where u: "u = x # u'" by (cases u) auto
  with assms(2) have "\<not> is_space x" by simp
  then have "\<exists>a'. dropWhile is_space (a @ x # (u' @ b)) = a' @ x # (u' @ b)"
    by (rule dropWhile_stops)
  then obtain a' where a': "dropWhile is_space (a @ x # (u' @ b)) = a' @ x # (u' @ b)" ..
  from assms(1) obtain y v where v: "rev u = y # v" by (cases "rev u") auto
  with assms(1,3) have "\<not> is_space y" by (simp add: last_rev [symmetric] hd_rev)
  then have "\<exists>b'. dropWhile is_space (rev b @ y # (v @ rev a')) = b' @ y # (v @ rev a')"
    by (rule dropWhile_stops)
  then obtain b' where b': "dropWhile is_space (rev b @ y # (v @ rev a')) = b' @ y # (v @ rev a')" ..
  have "trim (a @ u @ b) = rev (dropWhile is_space (rev b @ rev u @ rev a'))"
    using a' by (simp add: trim_def u)
  also have "\<dots> = rev (b' @ rev u @ rev a')"
    using b' by (simp add: v)
  also have "\<dots> = a' @ u @ rev b'" by simp
  finally show ?thesis by (simp add: sublist_def) blast
qed

lemma failed_line_note: "failed_line name e = newline @ failure_note name e @ newline"
  by (simp add: failed_line_def)

lemma failure_note_ends:
  "failure_note name e \<noteq> [] \<and> \<not> is_space (hd (failure_note name e)) \<and>
   \<not> is_space (last (failure_note name e))"
  by (simp add: failure_note_def is_space_def)

lemma process_content_result:
  "\<exists>suffix. result (fst (process_content w T q c acc)) = result (fst acc) @ suffix"
  by (cases c; cases acc) (auto simp: Let_def split: prod.splits sum.splits)

lemma process_response_result:
  "\<exists>suffix. result (fst (process_response w T q cs acc)) = result (fst acc) @ suffix"
proof (induction cs arbitrary: acc)
  case Nil
  then show ?case by simp
next
  case (Cons c cs)
  obtain s1 where "result (fst (process_content w T q c acc)) = result (fst acc) @ s1"
    using process_content_result by blast
  moreover obtain s2 where
    "result (fst (process_response w T q cs (process_content w T q c acc))) =
       result (fst (process_content w T q c acc)) @ s2"
    using Cons.IH by blast
  ultimately show ?case by simp
qed

lemma process_response_append:
  "process_response w T q (xs @ ys) acc = process_response w T q ys (process_response w T q xs acc)"
  by (induction xs arbitrary: acc) simp_all

lemma callTool_outcome_clients:
  "clients s = clients st \<Longrightarrow> fst (callTool s n t a) = fst (callTool st n t a)"
  by (simp add: callTool_def split: option.splits)

lemma process_content_failed:
  assumes "fst (callTool s (fst (parse_qualified name)) (snd (parse_qualified name)) input) = Inl e"
  shows "process_content w T q (ToolUse i name input) (ls, s) =
    (ls\<lparr>assistantContent := assistantContent ls @ [ToolUse i name input],
        result := result ls @ failed_line name e\<rparr>,
     snd (callTool s (fst (parse_qualified name)) (snd (parse_qualified name)) input))"
proof (cases "callTool s (fst (parse_qualified name)) (snd (parse_qualified name)) input")
  case (Pair r s')
  with assms have "r = Inl e" by simp
  with Pair show ?thesis by (simp add: Let_def)
qed

lemma callTool_no_llm:
  "llm_requests (new_events s (snd (callTool s n t a))) = []"
  by (simp add: callTool_def new_events_def log_def split: option.splits)

lemma queryWithLLM_answer:
  assumes "anthropic st = Some a"
    and "llm w (make_request st [UserText query] (collect_tools (serverInfos st) p)) = Inr response"
  shows "queryWithLLM w st query p =
    (Inr (trim (result (fst (process_response w (collect_tools (serverInfos st) p) query response
        (\<lparr>result = [], followUps = [], assistantContent = []\<rparr>,
         log [EvLLM (make_request st [UserText query] (collect_tools (serverInfos st) p))] st))))),
     snd (process_response w (collect_tools (serverInfos st) p) query response
        (\<lparr>result = [], followUps = [], assistantContent = []\<rparr>,
         log [EvLLM (make_request st [UserText query] (collect_tools (serverInfos st) p))] st)))"
  using assms by (simp add: queryWithLLM_def Let_def)

lemma query_splits_at_block:
  assumes "anthropic st = Some a"
    and "llm w (make_request st [UserText query] (collect_tools (serverInfos st) p)) =
           Inr (pre @ c # post)"
  shows "queryWithLLM w st query p =
    (Inr (trim (result (fst (process_response w (collect_tools (serverInfos st) p) query post
             (process_content w (collect_tools (serverInfos st) p) query c
               (process_response w (collect_tools (serverInfos st) p) query pre
                 (\<lparr>result = [], followUps = [], assistantContent = []\<rparr>,
                  log [EvLLM (make_request st [UserText query]
                                (collect_tools (serverInfos st) p))] st))))))),
     snd (process_response w (collect_tools (serverInfos st) p) query post
             (process_content w (collect_tools (serverInfos st) p) query c
               (process_response w (collect_tools (serverInfos st) p) query pre
                 (\<lparr>result = [], followUps = [], assistantContent = []\<rparr>,
                  log [EvLLM (make_request st [UserText query]
                                (collect_tools (serverInfos st) p))] st)))))"
  unfolding queryWithLLM_answer [OF assms] process_response_append process_response.simps
  by (rule refl)

lemma failed_step_in_loop:
  assumes "fst (callTool st (fst (parse_qualified name)) (snd (parse_qualified name)) input) = Inl e"
    and "clients s = clients st"
  shows "result (fst (process_content w T query (ToolUse i name input) (ls, s))) =
           result ls @ failed_line name e \<and>
         followUps (fst (process_content w T query (ToolUse i name input) (ls, s))) =
           followUps ls \<and>
         llm_requests (new_events s (snd (process_content w T query (ToolUse i name input)
           (ls, s)))) = []"
proof -
  have "fst (callTool s (fst (parse_qualified name)) (snd (parse_qualified name)) input) = Inl e"
    using callTool_outcome_clients [OF assms(2), of "fst (parse_qualified name)"
        "snd (parse_qualified name)" input] assms(1) by simp
  from process_content_failed [OF this, of w T query i ls] show ?thesis
    by (simp add: callTool_no_llm)
qed

lemma failure_note_survives:
  assumes "result (fst mid') = result (fst mid) @ failed_line name e"
  shows "sublist (failure_note name e)
           (trim (result (fst (process_response w T query post mid'))))"
proof -
  obtain suffix where
    "result (fst (process_response w T query post mid')) = result (fst mid') @ suffix"
    using process_response_result by blast
  with assms have "result (fst (process_response w T query post mid')) =
      (result (fst mid) @ newline) @ failure_note name e @ (newline @ suffix)"
    by (simp add: failed_line_note)
  moreover have "sublist (failure_note name e)
      (trim ((result (fst mid) @ newline) @ failure_note name e @ (newline @ suffix)))"
    using failure_note_ends [of name e] by (intro trim_keeps_core) simp_all
  ultimately show ?thesis by simp
qed


lemmas run_defs = queryWithLLM_def Let_def log_def make_request_def callTool_def map_get_def
  parse_qualified_def substring_def substring_from_def clamp_index_def followUpMessages_def
  executed_line_def failed_line_def failure_note_def newline_def error_toString_def trim_def is_space_def
  tool_entry_def search_tool_def search_server_def scripted_world_def method_not_found_def
  new_events_def

lemmas world_defs = failing_world_def chained_world_def misrouted_world_def

lemma two_servers_a_b:
  "two_servers ''a'' ''b'' =
     \<lparr>clients = [(''a'', \<lparr>client_name = ''universal-client-a'', handle = 0, peer = search_server\<rparr>),
                 (''b'', \<lparr>client_name = ''universal-client-b'', handle = 1, peer = search_server\<rparr>)],
      transports = [(''a'', node_transport), (''b'', node_transport)],
      serverInfos = [(''a'', \<lparr>info_name = ''a'', tools = [search_tool], resources = [], prompts = []\<rparr>),
                     (''b'', \<lparr>info_name = ''b'', tools = [search_tool], resources = [], prompts = []\<rparr>)],
      anthropic = Some \<lparr>apiKey = ''sk''\<rparr>, anthropicModel = ''claude-3-5-sonnet-20241022'',
      trace = [EvConnect 0 node_transport, EvListTools 0, EvListResources 0, EvListPrompts 0,
               EvConnect 1 node_transport, EvListTools 1, EvListResources 1, EvListPrompts 1],
      next_handle = 2\<rparr>"
  by (simp add: two_servers_state)

lemma two_servers_a_a_b:
  "two_servers ''a'' ''a_b'' =
     \<lparr>clients = [(''a'', \<lparr>client_name = ''universal-client-a'', handle = 0, peer = search_server\<rparr>),
                 (''a_b'', \<lparr>client_name = ''universal-client-a_b'', handle = 1, peer = search_server\<rparr>)],
      transports = [(''a'', node_transport), (''a_b'', node_transport)],
      serverInfos = [(''a'', \<lparr>info_name = ''a'', tools = [search_tool], resources = [], prompts = []\<rparr>),
                     (''a_b'', \<lparr>info_name = ''a_b'', tools = [search_tool], resources = [], prompts = []\<rparr>)],
      anthropic = Some \<lparr>apiKey = ''sk''\<rparr>, anthropicModel = ''claude-3-5-sonnet-20241022'',
      trace = [EvConnect 0 node_transport, EvListTools 0, EvListResources 0, EvListPrompts 0,
               EvConnect 1 node_transport, EvListTools 1, EvListResources 1, EvListPrompts 1],
      next_handle = 2\<rparr>"
  by (simp add: two_servers_state)

lemma failing_run:
  "fst (queryWithLLM failing_world (two_servers ''a'' ''b'') ''q'' None) =
   Inr (''Looking.'' @ newline @ newline @
        ''[a_lookup failed: McpError: MCP error -32601: Method not found]'' @ newline @ ''Done.'')"
  unfolding two_servers_a_b by (simp add: run_defs world_defs)

text \<open>
  C5: let the first response hold a \<open>tool_use\<close> block whose dispatch fails with the error
  \<open>e\<close> (unknown server, or the server's own failure). Then \<open>queryWithLLM\<close> returns an
  answer, not an error; the answer is not empty and contains the text
  \<open>[name failed: e]\<close>. In whatever loop state the block is reached, the iteration appends
  that text to the result, adds no tool_result turn and sends no model request. The blocks
  after it are processed as usual: the final state is that of the loop run over the blocks
  before it, the block itself and the blocks after it.
\<close>

theorem failed_tool_call_is_reported:
  assumes "anthropic st = Some a"
    and "llm w (make_request st [UserText query] (collect_tools (serverInfos st) p)) =
           Inr (pre @ ToolUse i name input # post)"
    and "fst (callTool st (fst (parse_qualified name)) (snd (parse_qualified name)) input) = Inl e"
  shows "(\<exists>answer. fst (queryWithLLM w st query p) = Inr answer \<and> answer \<noteq> [] \<and>
            sublist (''['' @ name @ '' failed: '' @ error_toString e @ '']'') answer) \<and>
         (\<forall>ls s. clients s = clients st \<longrightarrow>
            result (fst (process_content w (collect_tools (serverInfos st) p) query
                           (ToolUse i name input) (ls, s))) = result ls @ failed_line name e \<and>
            followUps (fst (process_content w (collect_tools (serverInfos st) p) query
                           (ToolUse i name input) (ls, s))) = followUps ls \<and>
            llm_requests (new_events s (snd (process_content w (collect_tools (serverInfos st) p)
                           query (ToolUse i name input) (ls, s)))) = []) \<and>
         snd (queryWithLLM w st query p) =
           snd (process_response w (collect_tools (serverInfos st) p) query post
             (process_content w (collect_tools (serverInfos st) p) query (ToolUse i name input)
               (process_response w (collect_tools (serverInfos st) p) query pre
                 (\<lparr>result = [], followUps = [], assistantContent = []\<rparr>,
                  log [EvLLM (make_request st [UserText query]
                                (collect_tools (serverInfos st) p))] st))))"
proof (intro conjI allI impI)
  let ?T = "collect_tools (serverInfos st) p"
  let ?acc = "(\<lparr>result = [], followUps = [], assistantContent = []\<rparr>,
                  log [EvLLM (make_request st [UserText query] ?T)] st)"
  let ?mid = "process_response w ?T query pre ?acc"
  let ?step = "process_content w ?T query (ToolUse i name input) ?mid"
  have "clients (snd ?mid) = clients st"
    by (simp add: process_response_clients log_def)
  from failed_step_in_loop [OF assms(3) this, of w ?T query i "fst ?mid"]
  have "result (fst ?step) = result (fst ?mid) @ failed_line name e" by simp
  then have kept: "sublist (failure_note name e)
      (trim (result (fst (process_response w ?T query post ?step))))"
    by (rule failure_note_survives)
  then have "trim (result (fst (process_response w ?T query post ?step))) \<noteq> []"
    using failure_note_ends [of name e] by auto
  with kept show "\<exists>answer. fst (queryWithLLM w st query p) = Inr answer \<and> answer \<noteq> [] \<and>
      sublist (''['' @ name @ '' failed: '' @ error_toString e @ '']'') answer"
    unfolding query_splits_at_block [OF assms(1,2)] by (simp add: failure_note_def)
  show "snd (queryWithLLM w st query p) = snd (process_response w ?T query post ?step)"
    unfolding query_splits_at_block [OF assms(1,2)] by simp
next
  fix ls :: loop_state and s :: state
  assume s: "clients s = clients st"
  from failed_step_in_loop [OF assms(3) s]
  show "result (fst (process_content w (collect_tools (serverInfos st) p) query
          (ToolUse i name input) (ls, s))) = result ls @ failed_line name e"
    and "followUps (fst (process_content w (collect_tools (serverInfos st) p) query
          (ToolUse i name input) (ls, s))) = followUps ls"
    and "llm_requests (new_events s (snd (process_content w (collect_tools (serverInfos st) p)
          query (ToolUse i name input) (ls, s)))) = []"
    by blast+
qed


text \<open>
  The model asks for \<open>a_lookup\<close> between two texts and server \<open>a\<close> answers "method
  not found": the answer holds both texts and the failure.
\<close>

theorem failed_tool_call_is_reported_witness:
  "anthropic (two_servers ''a'' ''b'') = Some \<lparr>apiKey = ''sk''\<rparr> \<and>
   llm failing_world (make_request (two_servers ''a'' ''b'') [UserText ''q'']
       (collect_tools (serverInfos (two_servers ''a'' ''b'')) None)) =
     Inr ([Text ''Looking.''] @ ToolUse ''t1'' ''a_lookup'' ''{}'' # [Text ''Done.'']) \<and>
   fst (callTool (two_servers ''a'' ''b'') (fst (parse_qualified ''a_lookup''))
          (snd (parse_qualified ''a_lookup'')) ''{}'') = Inl method_not_found \<and>
   fst (queryWithLLM failing_world (two_servers ''a'' ''b'') ''q'' None) =
     Inr (''Looking.'' @ newline @ newline @
        ''[a_lookup failed: McpError: MCP error -32601: Method not found]'' @ newline @ ''Done.'') \<and>
   sublist ''[a_lookup failed: McpError: MCP error -32601: Method not found]''
     (''Looking.'' @ newline @ newline @
        ''[a_lookup failed: McpError: MCP error -32601: Method not found]'' @ newline @ ''Done.'')"
proof -
  have a: "anthropic (two_servers ''a'' ''b'') = Some \<lparr>apiKey = ''sk''\<rparr>"
    unfolding two_servers_a_b by simp
  have l: "llm failing_world (make_request (two_servers ''a'' ''b'') [UserText ''q'']
       (collect_tools (serverInfos (two_servers ''a'' ''b'')) None)) =
     Inr ([Text ''Looking.''] @ ToolUse ''t1'' ''a_lookup'' ''{}'' # [Text ''Done.''])"
    by (simp add: world_defs scripted_world_def make_request_def)
  have f: "fst (callTool (two_servers ''a'' ''b'') (fst (parse_qualified ''a_lookup''))
          (snd (parse_qualified ''a_lookup'')) ''{}'') = Inl method_not_found"
    unfolding two_servers_a_b by (simp add: run_defs)
  from failed_tool_call_is_reported [OF a l f]
  obtain answer where "fst (queryWithLLM failing_world (two_servers ''a'' ''b'') ''q'' None) =
      Inr answer"
    and "sublist (''['' @ ''a_lookup'' @ '' failed: '' @ error_toString method_not_found @ '']'')
      answer"
    by blast
  with failing_run have "sublist ''[a_lookup failed: McpError: MCP error -32601: Method not found]''
     (''Looking.'' @ newline @ newline @
        ''[a_lookup failed: McpError: MCP error -32601: Method not found]'' @ newline @ ''Done.'')"
    by (simp add: error_toString_def method_not_found_def)
  with a l f failing_run show ?thesis by blast
qed

subsection \<open>The follow-up request and the split of qualified names\<close>

text \<open>
  The iteration of a \<open>tool_use\<close> block whose call succeeds and whose follow-up request
  is answered.
\<close>

lemma process_content_success:
  assumes "map_get (clients s) (fst (parse_qualified name)) = Some c"
    and "callTool_r (peer c) (snd (parse_qualified name)) input = Inr r"
    and "llm w (make_request s (followUpMessages query
            (ls\<lparr>assistantContent := assistantContent ls @ [ToolUse i name input],
                result := result ls @ executed_line name,
                followUps := followUps ls @ [(i, r)]\<rparr>)) T) = Inr followUp"
  shows "process_content w T query (ToolUse i name input) (ls, s) =
    (ls\<lparr>assistantContent := assistantContent ls @ [ToolUse i name input],
        result := result ls @ executed_line name @ followUp_text followUp,
        followUps := followUps ls @ [(i, r)]\<rparr>,
     log [EvCallTool (handle c) (snd (parse_qualified name)) input,
          EvLLM (make_request s (followUpMessages query
            (ls\<lparr>assistantContent := assistantContent ls @ [ToolUse i name input],
                result := result ls @ executed_line name,
                followUps := followUps ls @ [(i, r)]\<rparr>)) T)] s)"
  using assms by (simp add: callTool_def Let_def log_def make_request_def)

lemma followUpMessages_extended:
  "followUpMessages query
     (ls\<lparr>assistantContent := ac, result := res, followUps := followUps ls @ [(i, r)]\<rparr>) =
   followUpMessages query (ls\<lparr>assistantContent := ac\<rparr>) @
     [AssistantBlocks ac, UserToolResult i r]"
  by (simp add: followUpMessages_def)

lemma chained_run:
  "queryWithLLM chained_world (two_servers ''a'' ''b'') ''q'' None =
   (Inr (''[a_search executed]'' @ newline @ ''More.''),
    (two_servers ''a'' ''b'')
      \<lparr>trace := trace (two_servers ''a'' ''b'') @
        [EvLLM (make_request (two_servers ''a'' ''b'') [UserText ''q'']
                  (collect_tools (serverInfos (two_servers ''a'' ''b'')) None)),
         EvCallTool 0 ''search'' ''{}'',
         EvLLM (make_request (two_servers ''a'' ''b'')
                  [UserText ''q'', AssistantBlocks [ToolUse ''t1'' ''a_search'' ''{}''],
                   UserToolResult ''t1'' ''[]'']
                  (collect_tools (serverInfos (two_servers ''a'' ''b'')) None))]\<rparr>)"
  unfolding two_servers_a_b by (simp add: run_defs world_defs)

lemma requested_call_clients:
  "clients s = clients st \<Longrightarrow> requested_call s c = requested_call st c"
  by (cases c) simp_all

lemma call_succeeds_clients:
  "clients s = clients st \<Longrightarrow> call_succeeds s c = call_succeeds st c"
  by (cases c) simp_all

lemma process_content_events:
  "\<exists>evs. trace (snd (process_content w T q c (ls, s))) = trace s @ evs \<and>
         tool_calls evs = requested_call s c \<and>
         length (llm_requests evs) = (if call_succeeds s c then 1 else 0)"
proof (cases c)
  case (Text t)
  then show ?thesis by simp
next
  case (OtherBlock b)
  then show ?thesis by simp
next
  case (ToolUse i name input)
  show ?thesis
  proof (cases "map_get (clients s) (fst (parse_qualified name))")
    case None
    with ToolUse show ?thesis
      by (simp add: callTool_def)
  next
    case (Some client)
    with ToolUse show ?thesis
      by (cases "callTool_r (peer client) (snd (parse_qualified name)) input")
         (auto simp: callTool_def log_def Let_def split: sum.splits)
  qed
qed

lemma process_response_events:
  "clients (snd acc) = clients st \<Longrightarrow>
   \<exists>evs. trace (snd (process_response w T q cs acc)) = trace (snd acc) @ evs \<and>
         tool_calls evs = concat (map (requested_call st) cs) \<and>
         length (llm_requests evs) = length (filter (call_succeeds st) cs)"
proof (induction cs arbitrary: acc)
  case Nil
  then show ?case by simp
next
  case (Cons c cs)
  obtain ls s where acc: "acc = (ls, s)" by (cases acc)
  with Cons.prems have s: "clients s = clients st" by simp
  obtain e1 where e1: "trace (snd (process_content w T q c (ls, s))) = trace s @ e1"
      "tool_calls e1 = requested_call s c"
      "length (llm_requests e1) = (if call_succeeds s c then 1 else 0)"
    using process_content_events [of w T q c ls s] by blast
  have "clients (snd (process_content w T q c acc)) = clients st"
    using Cons.prems by (simp add: process_content_clients)
  from Cons.IH [OF this]
  obtain e2 where e2:
      "trace (snd (process_response w T q cs (process_content w T q c acc))) =
         trace (snd (process_content w T q c acc)) @ e2"
      "tool_calls e2 = concat (map (requested_call st) cs)"
      "length (llm_requests e2) = length (filter (call_succeeds st) cs)"
    by blast
  show ?case
  proof (intro exI [of _ "e1 @ e2"] conjI)
    show "trace (snd (process_response w T q (c # cs) acc)) = trace (snd acc) @ e1 @ e2"
      using e1(1) e2(1) by (simp add: acc)
    show "tool_calls (e1 @ e2) = concat (map (requested_call st) (c # cs))"
      using e1(2) e2(2) requested_call_clients [OF s] by (simp add: tool_calls_append)
    show "length (llm_requests (e1 @ e2)) = length (filter (call_succeeds st) (c # cs))"
      using e1(3) e2(3) call_succeeds_clients [OF s] by (simp add: llm_requests_append)
  qed
qed

lemma process_response_foldl:
  "process_response w T q cs acc = foldl (\<lambda>acc c. process_content w T q c acc) acc cs"
  by (induction cs arbitrary: acc) simp_all

lemma queryWithLLM_events:
  assumes "anthropic st = Some a"
    and "llm w (make_request st [UserText query] (collect_tools (serverInfos st) p)) = Inr response"
  shows "tool_calls (new_events st (snd (queryWithLLM w st query p))) =
           concat (map (requested_call st) response) \<and>
         length (llm_requests (new_events st (snd (queryWithLLM w st query p)))) =
           1 + length (filter (call_succeeds st) response)"
proof -
  let ?T = "collect_tools (serverInfos st) p"
  let ?req = "make_request st [UserText query] ?T"
  let ?acc = "(\<lparr>result = [], followUps = [], assistantContent = []\<rparr>, log [EvLLM ?req] st)"
  have "clients (snd ?acc) = clients st" by (simp add: log_def)
  from process_response_events [OF this, of w ?T query response]
  obtain evs where evs:
      "trace (snd (process_response w ?T query response ?acc)) = trace (snd ?acc) @ evs"
      "tool_calls evs = concat (map (requested_call st) response)"
      "length (llm_requests evs) = length (filter (call_succeeds st) response)"
    by blast
  have "trace (snd (queryWithLLM w st query p)) = trace st @ EvLLM ?req # evs"
    using evs(1) by (simp add: queryWithLLM_answer [OF assms] log_def)
  then have "new_events st (snd (queryWithLLM w st query p)) = EvLLM ?req # evs"
    by (rule new_events_append)
  with evs(2,3) show ?thesis by simp
qed

lemma length_pairs: "length (concat (map (\<lambda>p. [f p, g p]) xs)) = 2 * length xs"
  by (induction xs) simp_all

lemma length_followUpMessages:
  "length (followUpMessages q ls) = 1 + 2 * length (followUps ls)"
  by (simp add: followUpMessages_def length_pairs)

lemma busy_run:
  "fst (queryWithLLM busy_world (two_servers ''a'' ''b'') ''q'' None) =
   Inr (''Hi.'' @ newline @ newline @ ''[a_search executed]'' @ newline @ ''More.'' @ newline @
         newline @ ''[c_search failed: Error: Server c not connected]'' @ newline @ newline @
         ''[b_search executed]'' @ newline @ ''More.'' @ newline @ ''Bye.'')"
  unfolding two_servers_a_b
  by (simp add: queryWithLLM_def Let_def log_def make_request_def callTool_def map_get_def
      parse_qualified_def substring_def substring_from_def clamp_index_def
      length_followUpMessages executed_line_def failed_line_def failure_note_def newline_def
      error_toString_def trim_def is_space_def tool_entry_def search_tool_def search_server_def
      scripted_world_def busy_world_def not_connected_def Error_def)

text \<open>
  C3, as amended: when the model backend is configured and answers the first request,
  \<open>queryWithLLM\<close> makes one pass over all the blocks of that first response, in their
  order, and returns the trimmed result of that pass. The tool calls of the query are
  exactly the calls that the \<open>tool_use\<close> blocks of the first response ask for on connected
  servers, once each and in the order of the blocks (so at most one for each such block),
  and the query sends one model request more than the number of those calls that return a
  result. In every iteration whose tool call succeeds (in whatever loop state), the
  result is pushed as a tool_result turn with the id of the \<open>tool_use\<close> block, the model
  is asked once more with the conversation so extended and the same tool list, and the
  iteration ends after appending the text blocks of the follow-up response to the result:
  whatever \<open>tool_use\<close> blocks the follow-up response holds, the only events of the
  iteration are the one tool call and the one model request.
\<close>

theorem only_first_response_is_executed:
  assumes "anthropic st = Some a"
    and "llm w (make_request st [UserText query] (collect_tools (serverInfos st) p)) = Inr response"
  shows "queryWithLLM w st query p =
           (Inr (trim (result (fst (foldl
              (\<lambda>acc c. process_content w (collect_tools (serverInfos st) p) query c acc)
              (\<lparr>result = [], followUps = [], assistantContent = []\<rparr>,
               log [EvLLM (make_request st [UserText query]
                             (collect_tools (serverInfos st) p))] st)
              response)))),
            snd (foldl
              (\<lambda>acc c. process_content w (collect_tools (serverInfos st) p) query c acc)
              (\<lparr>result = [], followUps = [], assistantContent = []\<rparr>,
               log [EvLLM (make_request st [UserText query]
                             (collect_tools (serverInfos st) p))] st)
              response)) \<and>
         tool_calls (new_events st (snd (queryWithLLM w st query p))) =
           concat (map (requested_call st) response) \<and>
         length (llm_requests (new_events st (snd (queryWithLLM w st query p)))) =
           1 + length (filter (call_succeeds st) response) \<and>
         length (tool_calls (new_events st (snd (queryWithLLM w st query p)))) \<le>
           length (filter is_tool_use response) \<and>
         (\<forall>ls s i name input c r followUp.
            (let ls2 = ls\<lparr>assistantContent := assistantContent ls @ [ToolUse i name input],
                          result := result ls @ executed_line name,
                          followUps := followUps ls @ [(i, r)]\<rparr>;
                 req = make_request s (followUpMessages query ls2)
                         (collect_tools (serverInfos st) p)
             in map_get (clients s) (fst (parse_qualified name)) = Some c \<and>
                callTool_r (peer c) (snd (parse_qualified name)) input = Inr r \<and>
                llm w req = Inr followUp \<longrightarrow>
                process_content w (collect_tools (serverInfos st) p) query
                    (ToolUse i name input) (ls, s) =
                  (ls2\<lparr>result := result ls2 @ followUp_text followUp\<rparr>,
                   log [EvCallTool (handle c) (snd (parse_qualified name)) input, EvLLM req] s) \<and>
                req_messages req =
                  followUpMessages query
                    (ls\<lparr>assistantContent := assistantContent ls @ [ToolUse i name input]\<rparr>) @
                  [AssistantBlocks (assistantContent ls @ [ToolUse i name input]),
                   UserToolResult i r]))"
proof (intro conjI allI)
  show "queryWithLLM w st query p =
           (Inr (trim (result (fst (foldl
              (\<lambda>acc c. process_content w (collect_tools (serverInfos st) p) query c acc)
              (\<lparr>result = [], followUps = [], assistantContent = []\<rparr>,
               log [EvLLM (make_request st [UserText query]
                             (collect_tools (serverInfos st) p))] st)
              response)))),
            snd (foldl
              (\<lambda>acc c. process_content w (collect_tools (serverInfos st) p) query c acc)
              (\<lparr>result = [], followUps = [], assistantContent = []\<rparr>,
               log [EvLLM (make_request st [UserText query]
                             (collect_tools (serverInfos st) p))] st)
              response))"
    unfolding queryWithLLM_answer [OF assms] process_response_foldl by (rule refl)
next
  show "tool_calls (new_events st (snd (queryWithLLM w st query p))) =
           concat (map (requested_call st) response)"
    using queryWithLLM_events [OF assms] by blast
next
  show "length (llm_requests (new_events st (snd (queryWithLLM w st query p)))) =
           1 + length (filter (call_succeeds st) response)"
    using queryWithLLM_events [OF assms] by blast
next
  obtain evs where "new_events st (snd (queryWithLLM w st query p)) =
           EvLLM (make_request st [UserText query] (collect_tools (serverInfos st) p)) # evs"
    and "length (tool_calls evs) \<le>
           (case llm w (make_request st [UserText query] (collect_tools (serverInfos st) p)) of
              Inl e \<Rightarrow> 0 | Inr response \<Rightarrow> length (filter is_tool_use response))"
    using queryWithLLM_trace [OF assms(1), of w query p] by blast
  with assms(2)
  show "length (tool_calls (new_events st (snd (queryWithLLM w st query p)))) \<le>
           length (filter is_tool_use response)"
    by simp
next
  fix ls :: loop_state and s :: state and i name input c r followUp
  show "let ls2 = ls\<lparr>assistantContent := assistantContent ls @ [ToolUse i name input],
                          result := result ls @ executed_line name,
                          followUps := followUps ls @ [(i, r)]\<rparr>;
                 req = make_request s (followUpMessages query ls2)
                         (collect_tools (serverInfos st) p)
             in map_get (clients s) (fst (parse_qualified name)) = Some c \<and>
                callTool_r (peer c) (snd (parse_qualified name)) input = Inr r \<and>
                llm w req = Inr followUp \<longrightarrow>
                process_content w (collect_tools (serverInfos st) p) query
                    (ToolUse i name input) (ls, s) =
                  (ls2\<lparr>result := result ls2 @ followUp_text followUp\<rparr>,
                   log [EvCallTool (handle c) (snd (parse_qualified name)) input, EvLLM req] s) \<and>
                req_messages req =
                  followUpMessages query
                    (ls\<lparr>assistantContent := assistantContent ls @ [ToolUse i name input]\<rparr>) @
                  [AssistantBlocks (assistantContent ls @ [ToolUse i name input]),
                   UserToolResult i r]"
    unfolding Let_def
  proof (intro impI, elim conjE)
    assume h: "map_get (clients s) (fst (parse_qualified name)) = Some c"
      "callTool_r (peer c) (snd (parse_qualified name)) input = Inr r"
      "llm w (make_request s (followUpMessages query
            (ls\<lparr>assistantContent := assistantContent ls @ [ToolUse i name input],
                result := result ls @ executed_line name,
                followUps := followUps ls @ [(i, r)]\<rparr>))
            (collect_tools (serverInfos st) p)) = Inr followUp"
    show "process_content w (collect_tools (serverInfos st) p) query
                    (ToolUse i name input) (ls, s) =
           (ls\<lparr>assistantContent := assistantContent ls @ [ToolUse i name input],
                result := result ls @ executed_line name,
                followUps := followUps ls @ [(i, r)],
                result := result (ls\<lparr>assistantContent := assistantContent ls @ [ToolUse i name input],
                  result := result ls @ executed_line name,
                  followUps := followUps ls @ [(i, r)]\<rparr>) @ followUp_text followUp\<rparr>,
            log [EvCallTool (handle c) (snd (parse_qualified name)) input,
                 EvLLM (make_request s (followUpMessages query
                   (ls\<lparr>assistantContent := assistantContent ls @ [ToolUse i name input],
                       result := result ls @ executed_line name,
                       followUps := followUps ls @ [(i, r)]\<rparr>))
                   (collect_tools (serverInfos st) p))] s) \<and>
          req_messages (make_request s (followUpMessages query
                   (ls\<lparr>assistantContent := assistantContent ls @ [ToolUse i name input],
                       result := result ls @ executed_line name,
                       followUps := followUps ls @ [(i, r)]\<rparr>))
                   (collect_tools (serverInfos st) p)) =
                  followUpMessages query
                    (ls\<lparr>assistantContent := assistantContent ls @ [ToolUse i name input]\<rparr>) @
                  [AssistantBlocks (assistantContent ls @ [ToolUse i name input]),
                   UserToolResult i r]"
      unfolding process_content_success [OF h]
      by (simp add: make_request_def followUpMessages_extended)
  qed
qed

text \<open>
  A first response of five blocks, each follow-up response asking for one more call: the
  answer holds the texts and the notes of all five blocks in their order, the tool calls
  are the two of the first response that address connected servers, and three model
  requests are sent.
\<close>

theorem only_first_response_is_executed_witness:
  "anthropic (two_servers ''a'' ''b'') = Some \<lparr>apiKey = ''sk''\<rparr> \<and>
   llm busy_world (make_request (two_servers ''a'' ''b'') [UserText ''q'']
       (collect_tools (serverInfos (two_servers ''a'' ''b'')) None)) =
     Inr [Text ''Hi.'', ToolUse ''t1'' ''a_search'' ''{}'', ToolUse ''t2'' ''c_search'' ''{}'',
          ToolUse ''t3'' ''b_search'' ''[2]'', Text ''Bye.''] \<and>
   fst (queryWithLLM busy_world (two_servers ''a'' ''b'') ''q'' None) =
     Inr (''Hi.'' @ newline @ newline @ ''[a_search executed]'' @ newline @ ''More.'' @ newline @
         newline @ ''[c_search failed: Error: Server c not connected]'' @ newline @ newline @
         ''[b_search executed]'' @ newline @ ''More.'' @ newline @ ''Bye.'') \<and>
   tool_calls (new_events (two_servers ''a'' ''b'')
       (snd (queryWithLLM busy_world (two_servers ''a'' ''b'') ''q'' None))) =
     [(0, ''search'', ''{}''), (1, ''search'', ''[2]'')] \<and>
   length (llm_requests (new_events (two_servers ''a'' ''b'')
       (snd (queryWithLLM busy_world (two_servers ''a'' ''b'') ''q'' None)))) = 3"
proof -
  have a: "anthropic (two_servers ''a'' ''b'') = Some \<lparr>apiKey = ''sk''\<rparr>"
    unfolding two_servers_a_b by simp
  have l: "llm busy_world (make_request (two_servers ''a'' ''b'') [UserText ''q'']
       (collect_tools (serverInfos (two_servers ''a'' ''b'')) None)) =
     Inr [Text ''Hi.'', ToolUse ''t1'' ''a_search'' ''{}'', ToolUse ''t2'' ''c_search'' ''{}'',
          ToolUse ''t3'' ''b_search'' ''[2]'', Text ''Bye.'']"
    by (simp add: busy_world_def scripted_world_def make_request_def)
  have c: "clients (two_servers ''a'' ''b'') =
      [(''a'', \<lparr>client_name = ''universal-client-a'', handle = 0, peer = search_server\<rparr>),
       (''b'', \<lparr>client_name = ''universal-client-b'', handle = 1, peer = search_server\<rparr>)]"
    unfolding two_servers_a_b by simp
  from only_first_response_is_executed [OF a l]
  have "tool_calls (new_events (two_servers ''a'' ''b'')
       (snd (queryWithLLM busy_world (two_servers ''a'' ''b'') ''q'' None))) =
     concat (map (requested_call (two_servers ''a'' ''b''))
       [Text ''Hi.'', ToolUse ''t1'' ''a_search'' ''{}'', ToolUse ''t2'' ''c_search'' ''{}'',
        ToolUse ''t3'' ''b_search'' ''[2]'', Text ''Bye.''])"
    and "length (llm_requests (new_events (two_servers ''a'' ''b'')
       (snd (queryWithLLM busy_world (two_servers ''a'' ''b'') ''q'' None)))) =
     1 + length (filter (call_succeeds (two_servers ''a'' ''b''))
       [Text ''Hi.'', ToolUse ''t1'' ''a_search'' ''{}'', ToolUse ''t2'' ''c_search'' ''{}'',
        ToolUse ''t3'' ''b_search'' ''[2]'', Text ''Bye.''])"
    by blast+
  then have "tool_calls (new_events (two_servers ''a'' ''b'')
       (snd (queryWithLLM busy_world (two_servers ''a'' ''b'') ''q'' None))) =
     [(0, ''search'', ''{}''), (1, ''search'', ''[2]'')]"
    and "length (llm_requests (new_events (two_servers ''a'' ''b'')
       (snd (queryWithLLM busy_world (two_servers ''a'' ''b'') ''q'' None)))) = 3"
    by (simp_all add: c map_get_def parse_qualified_def substring_def substring_from_def
        clamp_index_def Let_def search_server_def)
  with a l show ?thesis by (simp add: busy_run)
qed

text \<open>
  Against C3 as stated: the follow-up response asks for \<open>b_search\<close>. The query returns
  with the text of that response, and the only tool call of the query is the first one, on
  the client of \<open>a\<close>: the last model response held a tool invocation that was not
  executed.
\<close>

theorem follow_up_tool_use_is_dropped:
  "fst (queryWithLLM chained_world (two_servers ''a'' ''b'') ''q'' None) =
     Inr (''[a_search executed]'' @ newline @ ''More.'') \<and>
   map (llm chained_world)
     (llm_requests (new_events (two_servers ''a'' ''b'')
        (snd (queryWithLLM chained_world (two_servers ''a'' ''b'') ''q'' None)))) =
     [Inr [ToolUse ''t1'' ''a_search'' ''{}''],
      Inr [Text ''More.'', ToolUse ''t2'' ''b_search'' ''[2]'']] \<and>
   tool_calls (new_events (two_servers ''a'' ''b'')
        (snd (queryWithLLM chained_world (two_servers ''a'' ''b'') ''q'' None))) =
     [(0, ''search'', ''{}'')]"
  unfolding chained_run
  by (simp add: new_events_def world_defs scripted_world_def make_request_def)

text \<open>
  The split gives back the server and the tool when the identifier has no separator;
  the qualified names of one tool on two servers differ; and every tool of every server
  is in the list when no server is preferred.
\<close>

lemma indexOf_first:
  "c \<notin> set xs \<Longrightarrow> indexOf (xs @ c # ys) c = int (length xs)"
  by (induction xs) (auto simp: Let_def)

lemma parse_qualified_separator_free:
  assumes "CHR ''_'' \<notin> set serverName"
  shows "parse_qualified (serverName @ ''_'' @ toolName) = (serverName, toolName)"
proof -
  have "nat (int (length serverName) + 1) = Suc (length serverName)" by arith
  with indexOf_first [OF assms, of toolName] show ?thesis
    by (simp add: parse_qualified_def substring_def substring_from_def clamp_index_def Let_def)
qed

lemma qualified_names_differ:
  "a \<noteq> b \<Longrightarrow> td_name (tool_entry a t) \<noteq> td_name (tool_entry b t)"
  by (simp add: tool_entry_def)

lemma collect_tools_all:
  "map_of m n = Some info \<Longrightarrow> t \<in> set (tools info) \<Longrightarrow>
   tool_entry n t \<in> set (collect_tools m None)"
  by (induction m) (auto split: if_splits)

lemma misrouted_run:
  "queryWithLLM misrouted_world (two_servers ''a'' ''a_b'') ''q'' None =
   (Inr ''[a_b_search failed: McpError: MCP error -32601: Method not found]'',
    (two_servers ''a'' ''a_b'')
      \<lparr>trace := trace (two_servers ''a'' ''a_b'') @
        [EvLLM (make_request (two_servers ''a'' ''a_b'') [UserText ''q'']
                  (collect_tools (serverInfos (two_servers ''a'' ''a_b'')) None)),
         EvCallTool 0 ''b_search'' ''{}'']\<rparr>)"
  unfolding two_servers_a_a_b by (simp add: run_defs world_defs)

text \<open>
  C2, at an identifier that contains the separator: the servers \<open>a\<close> (handle 0) and
  \<open>a_b\<close> (handle 1) both offer the tool \<open>search\<close>, and the flattened list holds the
  two names \<open>a_search\<close> and \<open>a_b_search\<close>. The model chooses \<open>a_b_search\<close>. The split
  at the first separator gives the server \<open>a\<close> and the tool \<open>b_search\<close>: the one tool
  call of the query goes to the client of \<open>a\<close>, under a tool name that no server
  offers, and the answer reports its failure.
\<close>

theorem separator_in_identifier_misroutes:
  "map (\<lambda>p. (fst p, handle (snd p))) (clients (two_servers ''a'' ''a_b'')) =
     [(''a'', 0), (''a_b'', 1)] \<and>
   map td_name (collect_tools (serverInfos (two_servers ''a'' ''a_b'')) None) =
     [''a_search'', ''a_b_search''] \<and>
   llm misrouted_world (make_request (two_servers ''a'' ''a_b'') [UserText ''q'']
       (collect_tools (serverInfos (two_servers ''a'' ''a_b'')) None)) =
     Inr [ToolUse ''t1'' ''a_b_search'' ''{}''] \<and>
   parse_qualified ''a_b_search'' = (''a'', ''b_search'') \<and>
   tool_calls (new_events (two_servers ''a'' ''a_b'')
        (snd (queryWithLLM misrouted_world (two_servers ''a'' ''a_b'') ''q'' None))) =
     [(0, ''b_search'', ''{}'')] \<and>
   fst (queryWithLLM misrouted_world (two_servers ''a'' ''a_b'') ''q'' None) =
     Inr ''[a_b_search failed: McpError: MCP error -32601: Method not found]''"
  unfolding misrouted_run
  by (simp add: new_events_def world_defs scripted_world_def make_request_def two_servers_a_a_b
      tool_entry_def search_tool_def parse_qualified_def substring_def substring_from_def
      clamp_index_def Let_def)

end
